theory Spec2Isabelle
  imports Main "HOL-Library.Word"
begin

unbundle bit_operations_syntax

section \<open>POSIX shared memory through raw syscalls (tools/utils/shm)\<close>

text \<open>
  The package talks to the operating system through \<^verbatim>\<open>unix.Syscall\<close>,
  \<^verbatim>\<open>unix.Ftruncate\<close>, \<^verbatim>\<open>unix.Mmap\<close>, \<^verbatim>\<open>unix.Munmap\<close>, \<^verbatim>\<open>os.Stat\<close>,
  \<^verbatim>\<open>os.Remove\<close> and \<^verbatim>\<open>(*os.File).Close\<close>, and draws random numbers with
  \<^verbatim>\<open>rand.Uint32\<close>. The embedding records every such call, with its arguments, in the
  order of issue, and takes the answer of each call from an arbitrary environment. Loops
  that repeat a call while it is interrupted need not end, so they return an option.
  Go's \<^verbatim>\<open>int\<close>, \<^verbatim>\<open>int64\<close> and \<^verbatim>\<open>uint64\<close> are 64-bit words (the 64-bit darwin and
  freebsd targets of the build tag); conversions between them keep the bits.
\<close>

subsection \<open>Constants of the platform\<close>

type_synonym errno = nat

definition EINTR :: errno where "EINTR = 4"
definition EEXIST :: errno where "EEXIST = 17"
definition ENOTEMPTY :: errno where "ENOTEMPTY = 66"

definition O_RDONLY :: nat where "O_RDONLY = 0"
definition O_RDWR :: nat where "O_RDWR = 2"
definition O_CREATE :: nat where "O_CREATE = 512"
definition O_EXCL :: nat where "O_EXCL = 2048"

definition PROT_READ :: nat where "PROT_READ = 1"
definition PROT_WRITE :: nat where "PROT_WRITE = 2"
definition MAP_SHARED :: nat where "MAP_SHARED = 1"
definition MAP_PRIVATE :: nat where "MAP_PRIVATE = 2"

text \<open>
  \<^verbatim>\<open>SHM_NAME_MAX\<close> and \<^verbatim>\<open>SHM_REQUIRED_PREFIX\<close> are declared per platform outside the
  files at hand; they are parameters of the model.
\<close>

record platform =
  SHM_NAME_MAX :: nat
  SHM_REQUIRED_PREFIX :: string

subsection \<open>Data\<close>

datatype trap = SYS_SHM_OPEN | SYS_SHM_UNLINK

text \<open>An \<^verbatim>\<open>*os.File\<close> made by \<^verbatim>\<open>os.NewFile(fd, name)\<close>.\<close>

datatype File = NewFile (Fd: nat) (FName: string)

text \<open>A \<^verbatim>\<open>[]byte\<close> over mapped memory: nil, or a base address with a length.\<close>

datatype byteslice = nil | Mapped nat "64 word"

datatype AccessFlags = READ | WRITE | COPY

text \<open>The operands of a format string other than the wrapped error.\<close>

datatype operand = S string | U "64 word"

datatype error =
    Errno errno
  | ErrPatternHasSeparator
  | ErrPatternTooLong
  | ErrExist
  | Errorf string "operand list" error
  | PathError string string error

text \<open>The calls that leave the package, as the trace records them.\<close>

datatype call =
    Syscall trap string nat nat
  | Ftruncate nat "64 word"
  | Mmap nat "64 word" "64 word" nat nat
  | Munmap byteslice
  | FileClose File
  | OsRemove string
  | OsStat string

record world =
  calls :: "call list"
  draws :: nat

text \<open>
  The environment: the answer to the call issued when \<open>n\<close> calls have been made before,
  and the \<open>n\<close>-th random number.
\<close>

record os =
  syscall_ret :: "nat \<Rightarrow> nat \<times> errno"
  ftruncate_ret :: "nat \<Rightarrow> errno"
  mmap_ret :: "nat \<Rightarrow> nat \<times> errno"
  munmap_ret :: "nat \<Rightarrow> errno"
  close_ret :: "nat \<Rightarrow> error option"
  remove_ret :: "nat \<Rightarrow> error option"
  stat_ret :: "nat \<Rightarrow> error + 64 word"
  rand_Uint32 :: "nat \<Rightarrow> 32 word"

record syscall_based_mmap =
  f :: File
  region :: byteslice
  unlinked :: bool

subsection \<open>The calls\<close>

definition emit :: "call \<Rightarrow> world \<Rightarrow> world" where
  "emit c w = w\<lparr>calls := calls w @ [c]\<rparr>"

definition unix_Syscall :: "os \<Rightarrow> trap \<Rightarrow> string \<Rightarrow> nat \<Rightarrow> nat \<Rightarrow> world \<Rightarrow> (nat \<times> errno) \<times> world" where
  "unix_Syscall env t a1 a2 a3 w = (syscall_ret env (length (calls w)), emit (Syscall t a1 a2 a3) w)"

definition unix_Ftruncate :: "os \<Rightarrow> nat \<Rightarrow> 64 word \<Rightarrow> world \<Rightarrow> errno \<times> world" where
  "unix_Ftruncate env fd len w = (ftruncate_ret env (length (calls w)), emit (Ftruncate fd len) w)"

definition unix_Mmap :: "os \<Rightarrow> nat \<Rightarrow> 64 word \<Rightarrow> 64 word \<Rightarrow> nat \<Rightarrow> nat \<Rightarrow> world \<Rightarrow> (byteslice \<times> errno) \<times> world" where
  "unix_Mmap env fd off len prot flags w =
     (let (addr, e) = mmap_ret env (length (calls w))
      in ((if e \<noteq> 0 then nil else Mapped addr len, e), emit (Mmap fd off len prot flags) w))"

definition unix_Munmap :: "os \<Rightarrow> byteslice \<Rightarrow> world \<Rightarrow> errno \<times> world" where
  "unix_Munmap env b w = (munmap_ret env (length (calls w)), emit (Munmap b) w)"

definition File_Close :: "os \<Rightarrow> File \<Rightarrow> world \<Rightarrow> error option \<times> world" where
  "File_Close env file w = (close_ret env (length (calls w)), emit (FileClose file) w)"

definition os_Remove :: "os \<Rightarrow> string \<Rightarrow> world \<Rightarrow> error option \<times> world" where
  "os_Remove env name w = (remove_ret env (length (calls w)), emit (OsRemove name) w)"

definition os_Stat :: "os \<Rightarrow> string \<Rightarrow> world \<Rightarrow> (error + 64 word) \<times> world" where
  "os_Stat env name w = (stat_ret env (length (calls w)), emit (OsStat name) w)"

definition rand_draw :: "os \<Rightarrow> world \<Rightarrow> 32 word \<times> world" where
  "rand_draw env w = (rand_Uint32 env (draws w), w\<lparr>draws := Suc (draws w)\<rparr>)"

subsection \<open>Library functions the code relies on\<close>

definition IsPathSeparator :: "char \<Rightarrow> bool" where
  "IsPathSeparator c = (c = CHR ''/'')"

fun LastIndexByte :: "string \<Rightarrow> char \<Rightarrow> int" where
  "LastIndexByte [] c = - 1"
| "LastIndexByte (x # xs) c =
     (let r = LastIndexByte xs c
      in if r \<noteq> - 1 then r + 1 else if x = c then 0 else - 1)"

definition HasPrefix :: "string \<Rightarrow> string \<Rightarrow> bool" where
  "HasPrefix s p = (take (length p) s = p)"

definition hexdigit :: "nat \<Rightarrow> char" where
  "hexdigit d = ''0123456789abcdef'' ! d"

fun FormatUint16 :: "nat \<Rightarrow> string" where
  "FormatUint16 n = (if n < 16 then [hexdigit n] else FormatUint16 (n div 16) @ [hexdigit (n mod 16)])"

declare FormatUint16.simps [simp del]

text \<open>
  \<^verbatim>\<open>errors.Unwrap\<close>, and \<^verbatim>\<open>errors.Is(err, fs.ErrExist)\<close>: the chain of wrapped errors is
  followed, and an errno matches through \<^verbatim>\<open>Errno.Is\<close>, which answers yes for
  \<^verbatim>\<open>EEXIST\<close> and \<^verbatim>\<open>ENOTEMPTY\<close>.
\<close>

fun errors_Unwrap :: "error \<Rightarrow> error option" where
  "errors_Unwrap (Errorf fmt ops e) = Some e"
| "errors_Unwrap (PathError opn path e) = Some e"
| "errors_Unwrap e = None"

fun errors_Is_ErrExist :: "error \<Rightarrow> bool" where
  "errors_Is_ErrExist (Errno e) = (e = EEXIST \<or> e = ENOTEMPTY)"
| "errors_Is_ErrExist ErrExist = True"
| "errors_Is_ErrExist (Errorf fmt ops e) = errors_Is_ErrExist e"
| "errors_Is_ErrExist (PathError opn path e) = errors_Is_ErrExist e"
| "errors_Is_ErrExist e = False"

subsection \<open>shm\_syscall.go: the backend\<close>

definition ByteSliceFromString :: "string \<Rightarrow> string" where
  "ByteSliceFromString s = s @ [CHR 0x00]"

definition BytePtrFromString :: "string \<Rightarrow> string" where
  "BytePtrFromString s = ByteSliceFromString s"

partial_function (option) shm_unlink :: "os \<Rightarrow> string \<Rightarrow> world \<Rightarrow> (error option \<times> world) option" where
  "shm_unlink env name w =
     (let r = unix_Syscall env SYS_SHM_OPEN (BytePtrFromString name) 0 0 w;
          e = snd (fst r)
      in if e \<noteq> EINTR
         then Some (if e \<noteq> 0 then Some (Errorf ''shm_unlink() failed with error: %w'' [] (Errno e)) else None, snd r)
         else shm_unlink env name (snd r))"

declare shm_unlink.simps [code]

partial_function (option) shm_open :: "os \<Rightarrow> string \<Rightarrow> nat \<Rightarrow> nat \<Rightarrow> world \<Rightarrow> ((error + File) \<times> world) option" where
  "shm_open env name flags perm w =
     (let r = unix_Syscall env SYS_SHM_OPEN (BytePtrFromString name) flags perm w;
          fd = fst (fst r);
          e = snd (fst r)
      in if e \<noteq> EINTR
         then Some (if e \<noteq> 0 then Inl (Errorf ''shm_open() failed with error: %w'' [] (Errno e))
                    else Inr (NewFile fd name), snd r)
         else shm_open env name flags perm (snd r))"

declare shm_open.simps [code]

subsection \<open>The shared part: pattern, random suffix, mapping, truncation\<close>

definition prefix_and_suffix :: "string \<Rightarrow> error + string \<times> string" where
  "prefix_and_suffix pattern =
     (if list_ex IsPathSeparator pattern then Inl ErrPatternHasSeparator
      else let pos = LastIndexByte pattern CHR ''*''
           in if pos \<noteq> - 1 then Inr (take (nat pos) pattern, drop (nat (pos + 1)) pattern)
              else Inr (pattern, ''''))"

definition next_random :: "os \<Rightarrow> world \<Rightarrow> string \<times> world" where
  "next_random env w = (let (num, w') = rand_draw env w in (FormatUint16 (unat num), w'))"

definition mmap :: "os \<Rightarrow> 64 word \<Rightarrow> AccessFlags \<Rightarrow> nat \<Rightarrow> 64 word \<Rightarrow> world \<Rightarrow> (error + byteslice) \<times> world" where
  "mmap env sz access fd off w =
     (let flags = MAP_SHARED;
          prot = PROT_READ;
          (prot, flags) = (case access of
                             COPY \<Rightarrow> (prot OR PROT_WRITE, MAP_PRIVATE)
                           | WRITE \<Rightarrow> (prot OR PROT_WRITE, flags)
                           | READ \<Rightarrow> (prot, flags));
          ((b, e), w') = unix_Mmap env fd off sz prot flags w
      in if e \<noteq> 0 then (Inl (Errno e), w') else (Inr b, w'))"

definition munmap :: "os \<Rightarrow> byteslice \<Rightarrow> world \<Rightarrow> error option \<times> world" where
  "munmap env s w = (let (e, w') = unix_Munmap env s w in (if e \<noteq> 0 then Some (Errno e) else None, w'))"

partial_function (option) ftruncate_retry :: "os \<Rightarrow> nat \<Rightarrow> 64 word \<Rightarrow> world \<Rightarrow> (errno \<times> world) option" where
  "ftruncate_retry env fd sz w =
     (let r = unix_Ftruncate env fd sz w
      in if fst r \<noteq> EINTR then Some r else ftruncate_retry env fd sz (snd r))"

declare ftruncate_retry.simps [code]

definition truncate_or_unlink :: "os \<Rightarrow> File \<Rightarrow> 64 word \<Rightarrow> world \<Rightarrow> (error option \<times> world) option" where
  "truncate_or_unlink env ans sz w =
     (case ftruncate_retry env (Fd ans) sz w of
        None \<Rightarrow> None
      | Some (e, w1) \<Rightarrow>
          if e \<noteq> 0
          then let (_, w2) = File_Close env ans w1;
                   (_, w3) = os_Remove env (FName ans) w2
               in Some (Some (Errorf ''Failed to ftruncate() SHM file %s to size: %d with error: %w''
                                [S (FName ans), U sz] (Errno e)), w3)
          else Some (None, w1))"

subsection \<open>shm\_syscall.go: mapping, the handle, creation and opening\<close>

text \<open>
  \<^verbatim>\<open>syscall_mmap\<close> calls \<^verbatim>\<open>mmap(int(size), access, false, int(f.Fd()), 0)\<close>; the
  \<^verbatim>\<open>mmap\<close> at hand takes the size, the access mode, the descriptor and the offset, which
  is how the call is read here.
\<close>

definition map_or_remove :: "os \<Rightarrow> File \<Rightarrow> 64 word \<Rightarrow> AccessFlags \<Rightarrow> world \<Rightarrow> (error + syscall_based_mmap) \<times> world" where
  "map_or_remove env file sz access w =
     (case mmap env sz access (Fd file) 0 w of
        (Inl err, w1) \<Rightarrow>
          let (_, w2) = File_Close env file w1;
              (_, w3) = os_Remove env (FName file) w2
          in (Inl (Errorf ''mmap failed with error: %w'' [] err), w3)
      | (Inr reg, w1) \<Rightarrow> (Inr \<lparr>f = file, region = reg, unlinked = False\<rparr>, w1))"

definition syscall_mmap :: "os \<Rightarrow> File \<Rightarrow> 64 word \<Rightarrow> AccessFlags \<Rightarrow> bool \<Rightarrow> world \<Rightarrow> ((error + syscall_based_mmap) \<times> world) option" where
  "syscall_mmap env file sz access truncate' w =
     (if truncate'
      then (case truncate_or_unlink env file sz w of
              None \<Rightarrow> None
            | Some (Some err, w1) \<Rightarrow> Some (Inl (Errorf ''truncate failed with error: %w'' [] err), w1)
            | Some (None, w1) \<Rightarrow> Some (map_or_remove env file sz access w1))
      else Some (map_or_remove env file sz access w))"

definition Name :: "syscall_based_mmap \<Rightarrow> string" where
  "Name self = FName (f self)"

definition Slice :: "syscall_based_mmap \<Rightarrow> byteslice" where
  "Slice self = region self"

definition Close :: "os \<Rightarrow> syscall_based_mmap \<Rightarrow> world \<Rightarrow> error option \<times> syscall_based_mmap \<times> world" where
  "Close env self w = (let (err, w') = File_Close env (f self) w in (err, self\<lparr>region := nil\<rparr>, w'))"

definition Unlink :: "os \<Rightarrow> syscall_based_mmap \<Rightarrow> world \<Rightarrow> (error option \<times> syscall_based_mmap \<times> world) option" where
  "Unlink env self w =
     (if unlinked self then Some (None, self, w)
      else case shm_unlink env (Name (self\<lparr>unlinked := True\<rparr>)) w of
             None \<Rightarrow> None
           | Some (err, w') \<Rightarrow> Some (err, self\<lparr>unlinked := True\<rparr>, w'))"

text \<open>
  Modelled from the spec: the access mode \<^verbatim>\<open>RDWR\<close> that \<^verbatim>\<open>create_temp\<close> passes is
  declared outside the files at hand; creation maps the object read-write, shared.
\<close>

definition RDWR :: AccessFlags where
  "RDWR = WRITE"

definition already_exists :: "error \<Rightarrow> bool" where
  "already_exists err = (errors_Is_ErrExist err \<or> errors_Unwrap err = Some (Errno EEXIST))"

partial_function (option) create_loop :: "os \<Rightarrow> platform \<Rightarrow> string \<Rightarrow> string \<Rightarrow> nat \<Rightarrow> world \<Rightarrow> ((error + File) \<times> world) option" where
  "create_loop env pf prefix suffix try w =
     (let rn = next_random env w;
          name = prefix @ fst rn @ suffix
      in if length name > SHM_NAME_MAX pf then Some (Inl ErrPatternTooLong, snd rn)
         else (case shm_open env name (O_EXCL OR O_CREATE OR O_RDWR) 384 (snd rn) of
                 None \<Rightarrow> None
               | Some (Inl err, w1) \<Rightarrow>
                   if already_exists err
                   then if try + 1 > 10000
                        then Some (Inl (PathError ''createtemp'' (prefix @ ''*'' @ suffix) ErrExist), w1)
                        else create_loop env pf prefix suffix (try + 1) w1
                   else Some (Inl err, w1)
               | Some (Inr file, w1) \<Rightarrow> Some (Inr file, w1)))"

declare create_loop.simps [code]

definition effective_prefix :: "platform \<Rightarrow> string \<Rightarrow> string \<Rightarrow> string" where
  "effective_prefix pf pattern prefix =
     (if SHM_REQUIRED_PREFIX pf \<noteq> '''' \<and> \<not> HasPrefix pattern (SHM_REQUIRED_PREFIX pf)
      then SHM_REQUIRED_PREFIX pf @ prefix else prefix)"

definition create_temp :: "os \<Rightarrow> platform \<Rightarrow> string \<Rightarrow> 64 word \<Rightarrow> world \<Rightarrow> ((error + syscall_based_mmap) \<times> world) option" where
  "create_temp env pf pattern sz w =
     (case prefix_and_suffix pattern of
        Inl err \<Rightarrow> Some (Inl err, w)
      | Inr (prefix, suffix) \<Rightarrow>
          (case create_loop env pf (effective_prefix pf pattern prefix) suffix 0 w of
             None \<Rightarrow> None
           | Some (Inl err, w1) \<Rightarrow> Some (Inl err, w1)
           | Some (Inr file, w1) \<Rightarrow> syscall_mmap env file sz RDWR True w1))"

definition CreateTemp :: "os \<Rightarrow> platform \<Rightarrow> string \<Rightarrow> 64 word \<Rightarrow> world \<Rightarrow> ((error + syscall_based_mmap) \<times> world) option" where
  "CreateTemp env pf pattern sz w = create_temp env pf pattern sz w"

definition Open :: "os \<Rightarrow> string \<Rightarrow> world \<Rightarrow> ((error + syscall_based_mmap) \<times> world) option" where
  "Open env name w =
     (case shm_open env name O_RDONLY 0 w of
        None \<Rightarrow> None
      | Some (Inl err, w1) \<Rightarrow> Some (Inl err, w1)
      | Some (Inr ans, w1) \<Rightarrow>
          (case os_Stat env name w1 of
             (Inl err, w2) \<Rightarrow> (let (_, w3) = File_Close env ans w2 in Some (Inl err, w3))
           | (Inr sz, w2) \<Rightarrow> syscall_mmap env ans sz READ False w2))"

section \<open>Vocabulary of the properties\<close>

subsection \<open>Traces\<close>

text \<open>The calls made between two worlds of one run.\<close>

definition issued :: "world \<Rightarrow> world \<Rightarrow> call list" where
  "issued w w' = drop (length (calls w)) (calls w')"

definition is_Munmap :: "call \<Rightarrow> bool" where
  "is_Munmap c = (case c of Munmap b \<Rightarrow> True | _ \<Rightarrow> False)"

definition is_Mmap :: "call \<Rightarrow> bool" where
  "is_Mmap c = (case c of Mmap fd off len prot flags \<Rightarrow> True | _ \<Rightarrow> False)"

text \<open>The later world continues the trace of the earlier one, and no call added unmaps.\<close>

definition unmapped_nothing :: "world \<Rightarrow> world \<Rightarrow> bool" where
  "unmapped_nothing w w' =
     (take (length (calls w)) (calls w') = calls w \<and> \<not> list_ex is_Munmap (issued w w'))"

subsection \<open>A client of a handle\<close>

text \<open>A client calls the methods of one handle, one after the other.\<close>

datatype handle_call = Call_Close | Call_Unlink | Call_Slice | Call_Name

fun invoke :: "os \<Rightarrow> handle_call \<Rightarrow> syscall_based_mmap \<Rightarrow> world \<Rightarrow> (syscall_based_mmap \<times> world) option" where
  "invoke env Call_Close self w = (let (err, self', w') = Close env self w in Some (self', w'))"
| "invoke env Call_Unlink self w =
     (case Unlink env self w of None \<Rightarrow> None | Some (err, self', w') \<Rightarrow> Some (self', w'))"
| "invoke env Call_Slice self w = (let b = Slice self in Some (self, w))"
| "invoke env Call_Name self w = (let n = Name self in Some (self, w))"

fun invoke_all :: "os \<Rightarrow> handle_call list \<Rightarrow> syscall_based_mmap \<Rightarrow> world \<Rightarrow> (syscall_based_mmap \<times> world) option" where
  "invoke_all env [] self w = Some (self, w)"
| "invoke_all env (m # ms) self w =
     (case invoke env m self w of None \<Rightarrow> None | Some (self', w') \<Rightarrow> invoke_all env ms self' w')"

subsection \<open>Candidate names and creation attempts\<close>

text \<open>
  The longest name a pattern can generate: a 32-bit number has at most eight hex digits.
\<close>

definition max_candidate_length :: "platform \<Rightarrow> string \<Rightarrow> nat" where
  "max_candidate_length pf pattern =
     (case prefix_and_suffix pattern of
        Inl err \<Rightarrow> 0
      | Inr (p, s) \<Rightarrow> length (effective_prefix pf pattern p) + 8 + length s)"

text \<open>
  Counted from a world \<open>w\<close> at which the loop starts: the \<open>i\<close>-th candidate name, the trap
  that tries to create it, the error number that answers the \<open>i\<close>-th trap when none is
  interrupted, and the world after \<open>k\<close> such attempts.
\<close>

definition candidate :: "os \<Rightarrow> string \<Rightarrow> string \<Rightarrow> world \<Rightarrow> nat \<Rightarrow> string" where
  "candidate env prefix suffix w i = prefix @ FormatUint16 (unat (rand_Uint32 env (draws w + i))) @ suffix"

definition attempt :: "os \<Rightarrow> string \<Rightarrow> string \<Rightarrow> world \<Rightarrow> nat \<Rightarrow> call" where
  "attempt env prefix suffix w i =
     Syscall SYS_SHM_OPEN (BytePtrFromString (candidate env prefix suffix w i)) (O_EXCL OR O_CREATE OR O_RDWR) 384"

definition answer :: "os \<Rightarrow> world \<Rightarrow> nat \<Rightarrow> errno" where
  "answer env w i = snd (syscall_ret env (length (calls w) + i))"

definition after_attempts :: "os \<Rightarrow> string \<Rightarrow> string \<Rightarrow> nat \<Rightarrow> world \<Rightarrow> world" where
  "after_attempts env prefix suffix k w =
     \<lparr>calls = calls w @ map (attempt env prefix suffix w) [0..<k], draws = draws w + k\<rparr>"

text \<open>
  The error \<^verbatim>\<open>shm_open\<close> makes of an error number, and the two kinds of failed creation
  the loop tells apart with its own test.
\<close>

definition open_error :: "errno \<Rightarrow> error" where
  "open_error e = Errorf ''shm_open() failed with error: %w'' [] (Errno e)"

definition exists_answer :: "errno \<Rightarrow> bool" where
  "exists_answer e = (e \<noteq> 0 \<and> e \<noteq> EINTR \<and> already_exists (open_error e))"

definition other_answer :: "errno \<Rightarrow> bool" where
  "other_answer e = (e \<noteq> 0 \<and> e \<noteq> EINTR \<and> \<not> already_exists (open_error e))"

text \<open>An error names an object when the name is an operand of a message or the path of a path error.\<close>

fun names_object :: "string \<Rightarrow> error \<Rightarrow> bool" where
  "names_object n (Errorf fmt ops e) = (S n \<in> set ops \<or> names_object n e)"
| "names_object n (PathError opn path e) = (path = n \<or> names_object n e)"
| "names_object n e = False"

subsection \<open>Concrete environments\<close>

text \<open>
  An environment in which every call succeeds at once and every random number is 42, an
  empty world, two platforms and a handle.
\<close>

definition quiet_os :: os where
  "quiet_os = \<lparr>syscall_ret = (\<lambda>n. (3, 0)), ftruncate_ret = (\<lambda>n. 0), mmap_ret = (\<lambda>n. (4096, 0)),
     munmap_ret = (\<lambda>n. 0), close_ret = (\<lambda>n. None), remove_ret = (\<lambda>n. None),
     stat_ret = (\<lambda>n. Inr 16), rand_Uint32 = (\<lambda>n. 0x2a)\<rparr>"

definition w0 :: world where
  "w0 = \<lparr>calls = [], draws = 0\<rparr>"

definition freebsd :: platform where
  "freebsd = \<lparr>SHM_NAME_MAX = 255, SHM_REQUIRED_PREFIX = ''/''\<rparr>"

definition darwin :: platform where
  "darwin = \<lparr>SHM_NAME_MAX = 30, SHM_REQUIRED_PREFIX = ''''\<rparr>"

definition h0 :: syscall_based_mmap where
  "h0 = \<lparr>f = NewFile 3 ''/kitty-2a'', region = Mapped 4096 64, unlinked = False\<rparr>"

text \<open>
  Environments in which one kind of call fails: every trap with \<^verbatim>\<open>ENOENT\<close>, every trap
  with \<^verbatim>\<open>EEXIST\<close>, the first two traps with \<^verbatim>\<open>EEXIST\<close> and the later ones with
  \<^verbatim>\<open>EACCES\<close>, the size query, the truncation with \<^verbatim>\<open>ENOSPC\<close>, the mapping with
  \<^verbatim>\<open>ENOMEM\<close>.
\<close>

definition enoent_os :: os where
  "enoent_os = quiet_os\<lparr>syscall_ret := (\<lambda>n. (0, 2))\<rparr>"

definition exists_os :: os where
  "exists_os = quiet_os\<lparr>syscall_ret := (\<lambda>n. (0, 17))\<rparr>"

definition eacces_os :: os where
  "eacces_os = quiet_os\<lparr>syscall_ret := (\<lambda>n. if n < 2 then (0, 17) else (0, 13))\<rparr>"

definition statfail_os :: os where
  "statfail_os = quiet_os\<lparr>stat_ret := (\<lambda>n. Inl (PathError ''stat'' ''/kitty-2a'' (Errno 2)))\<rparr>"

definition truncfail_os :: os where
  "truncfail_os = quiet_os\<lparr>ftruncate_ret := (\<lambda>n. 28)\<rparr>"

definition mapfail_os :: os where
  "mapfail_os = quiet_os\<lparr>mmap_ret := (\<lambda>n. (0, 12))\<rparr>"

section \<open>The interrupted-call loops\<close>

text \<open>A trap that is not interrupted ends the loop at once.\<close>

lemma shm_unlink_now:
  "snd (syscall_ret env (length (calls w))) \<noteq> EINTR \<Longrightarrow>
   shm_unlink env name w =
     Some (if snd (syscall_ret env (length (calls w))) \<noteq> 0
           then Some (Errorf ''shm_unlink() failed with error: %w'' [] (Errno (snd (syscall_ret env (length (calls w))))))
           else None,
           emit (Syscall SYS_SHM_OPEN (BytePtrFromString name) 0 0) w)"
  by (subst shm_unlink.simps) (simp add: unix_Syscall_def Let_def)

subsection \<open>Traces that unmap nothing\<close>

lemma unmapped_nothing_iff:
  "unmapped_nothing w w' \<longleftrightarrow> (\<exists>cs. calls w' = calls w @ cs \<and> (\<forall>c\<in>set cs. \<not> is_Munmap c))"
proof
  assume h: "unmapped_nothing w w'"
  then have "calls w' = calls w @ issued w w'"
    by (metis append_take_drop_id issued_def unmapped_nothing_def)
  with h show "\<exists>cs. calls w' = calls w @ cs \<and> (\<forall>c\<in>set cs. \<not> is_Munmap c)"
    by (auto simp: unmapped_nothing_def list_ex_iff)
next
  assume "\<exists>cs. calls w' = calls w @ cs \<and> (\<forall>c\<in>set cs. \<not> is_Munmap c)"
  then show "unmapped_nothing w w'"
    by (auto simp: unmapped_nothing_def issued_def list_ex_iff)
qed

lemma unmapped_nothing_same: "calls w' = calls w \<Longrightarrow> unmapped_nothing w w'"
  by (simp add: unmapped_nothing_iff)

lemma unmapped_nothing_trans:
  "unmapped_nothing w w1 \<Longrightarrow> unmapped_nothing w1 w2 \<Longrightarrow> unmapped_nothing w w2"
  unfolding unmapped_nothing_iff by fastforce

lemma unmapped_nothing_emit: "\<not> is_Munmap c \<Longrightarrow> unmapped_nothing w (emit c w)"
  by (simp add: unmapped_nothing_iff emit_def)

lemma unmapped_nothing_replicate:
  "calls w' = calls w @ replicate n c \<Longrightarrow> \<not> is_Munmap c \<Longrightarrow> unmapped_nothing w w'"
  by (auto simp: unmapped_nothing_iff)

subsection \<open>What a loop issues when it returns\<close>

lemma shm_unlink_trace:
  assumes h: "shm_unlink env name w = Some y"
  shows "\<exists>n. calls (snd y) = calls w @ replicate (Suc n) (Syscall SYS_SHM_OPEN (BytePtrFromString name) 0 0)
        \<and> draws (snd y) = draws w"
proof (rule shm_unlink.raw_induct[where P = "\<lambda>env name w y. \<exists>n. calls (snd y) = calls w @ replicate (Suc n) (Syscall SYS_SHM_OPEN (BytePtrFromString name) 0 0)
        \<and> draws (snd y) = draws w", OF _ h], goal_cases)
  case (1 su env name w y)
  show ?case
  proof (cases "snd (syscall_ret env (length (calls w))) = EINTR")
    case True
    with 1(2) have "su env name (emit (Syscall SYS_SHM_OPEN (BytePtrFromString name) 0 0) w) = Some y"
      by (simp add: unix_Syscall_def Let_def)
    from 1(1)[OF this] obtain n where
      "calls (snd y) = calls w @ replicate (Suc (Suc n)) (Syscall SYS_SHM_OPEN (BytePtrFromString name) 0 0)"
      "draws (snd y) = draws w"
      by (auto simp: emit_def)
    then show ?thesis by blast
  next
    case False
    with 1(2) have "calls (snd y) = calls w @ replicate (Suc 0) (Syscall SYS_SHM_OPEN (BytePtrFromString name) 0 0) \<and> draws (snd y) = draws w"
      by (auto simp: unix_Syscall_def Let_def emit_def)
    then show ?thesis by blast
  qed
qed

lemma shm_open_trace:
  assumes h: "shm_open env name flags perm w = Some y"
  shows "\<exists>n. calls (snd y) = calls w @ replicate (Suc n) (Syscall SYS_SHM_OPEN (BytePtrFromString name) flags perm)
        \<and> draws (snd y) = draws w"
proof (rule shm_open.raw_induct[where P = "\<lambda>env name flags perm w y. \<exists>n. calls (snd y) = calls w @ replicate (Suc n) (Syscall SYS_SHM_OPEN (BytePtrFromString name) flags perm)
        \<and> draws (snd y) = draws w", OF _ h], goal_cases)
  case (1 so env name flags perm w y)
  show ?case
  proof (cases "snd (syscall_ret env (length (calls w))) = EINTR")
    case True
    with 1(2) have "so env name flags perm (emit (Syscall SYS_SHM_OPEN (BytePtrFromString name) flags perm) w) = Some y"
      by (simp add: unix_Syscall_def Let_def)
    from 1(1)[OF this] obtain n where
      "calls (snd y) = calls w @ replicate (Suc (Suc n)) (Syscall SYS_SHM_OPEN (BytePtrFromString name) flags perm)"
      "draws (snd y) = draws w"
      by (auto simp: emit_def)
    then show ?thesis by blast
  next
    case False
    with 1(2) have "calls (snd y) = calls w @ replicate (Suc 0) (Syscall SYS_SHM_OPEN (BytePtrFromString name) flags perm) \<and> draws (snd y) = draws w"
      by (auto simp: unix_Syscall_def Let_def emit_def)
    then show ?thesis by blast
  qed
qed

lemma shm_open_result:
  assumes h: "shm_open env name flags perm w = Some y"
  shows "(\<exists>fd. fst y = Inr (NewFile fd name)) \<or>
     (\<exists>e. e \<noteq> 0 \<and> e \<noteq> EINTR \<and> fst y = Inl (Errorf ''shm_open() failed with error: %w'' [] (Errno e)))"
proof (rule shm_open.raw_induct[where P = "\<lambda>env name flags perm w y. (\<exists>fd. fst y = Inr (NewFile fd name)) \<or>
     (\<exists>e. e \<noteq> 0 \<and> e \<noteq> EINTR \<and> fst y = Inl (Errorf ''shm_open() failed with error: %w'' [] (Errno e)))", OF _ h], goal_cases)
  case (1 so env name flags perm w y)
  then show ?case
    by (auto simp: unix_Syscall_def Let_def split: if_splits)
qed

lemma shm_open_now:
  "snd (syscall_ret env (length (calls w))) \<noteq> EINTR \<Longrightarrow>
   shm_open env name flags perm w =
     Some (if snd (syscall_ret env (length (calls w))) \<noteq> 0
           then Inl (Errorf ''shm_open() failed with error: %w'' [] (Errno (snd (syscall_ret env (length (calls w))))))
           else Inr (NewFile (fst (syscall_ret env (length (calls w)))) name),
           emit (Syscall SYS_SHM_OPEN (BytePtrFromString name) flags perm) w)"
  by (subst shm_open.simps) (simp add: unix_Syscall_def Let_def)

lemma ftruncate_retry_trace:
  assumes h: "ftruncate_retry env fd sz w = Some y"
  shows "\<exists>n. calls (snd y) = calls w @ replicate (Suc n) (Ftruncate fd sz) \<and> draws (snd y) = draws w
        \<and> fst y \<noteq> EINTR"
proof (rule ftruncate_retry.raw_induct[where P = "\<lambda>env fd sz w y. \<exists>n. calls (snd y) = calls w @ replicate (Suc n) (Ftruncate fd sz) \<and> draws (snd y) = draws w
        \<and> fst y \<noteq> EINTR", OF _ h], goal_cases)
  case (1 ft env fd sz w y)
  show ?case
  proof (cases "ftruncate_ret env (length (calls w)) = EINTR")
    case True
    with 1(2) have "ft env fd sz (emit (Ftruncate fd sz) w) = Some y"
      by (simp add: unix_Ftruncate_def Let_def)
    from 1(1)[OF this] obtain n where
      "calls (snd y) = calls w @ replicate (Suc (Suc n)) (Ftruncate fd sz)"
      "draws (snd y) = draws w" "fst y \<noteq> EINTR"
      by (auto simp: emit_def)
    then show ?thesis by blast
  next
    case False
    with 1(2) have "calls (snd y) = calls w @ replicate (Suc 0) (Ftruncate fd sz) \<and> draws (snd y) = draws w \<and> fst y \<noteq> EINTR"
      by (auto simp: unix_Ftruncate_def Let_def emit_def)
    then show ?thesis by blast
  qed
qed

lemma ftruncate_retry_now:
  "ftruncate_ret env (length (calls w)) \<noteq> EINTR \<Longrightarrow>
   ftruncate_retry env fd sz w = Some (ftruncate_ret env (length (calls w)), emit (Ftruncate fd sz) w)"
  by (subst ftruncate_retry.simps) (simp add: unix_Ftruncate_def Let_def)

lemma shm_unlink_quiet: "shm_unlink env name w = Some (e, w') \<Longrightarrow> unmapped_nothing w w'"
  using shm_unlink_trace [of env name w "(e, w')"]
  by (auto simp: unmapped_nothing_iff is_Munmap_def)

lemma shm_open_quiet: "shm_open env name flags perm w = Some (r, w') \<Longrightarrow> unmapped_nothing w w'"
  using shm_open_trace [of env name flags perm w "(r, w')"]
  by (auto simp: unmapped_nothing_iff is_Munmap_def)

lemma ftruncate_retry_quiet: "ftruncate_retry env fd sz w = Some (e, w') \<Longrightarrow> unmapped_nothing w w'"
  using ftruncate_retry_trace [of env fd sz w "(e, w')"]
  by (auto simp: unmapped_nothing_iff is_Munmap_def)

subsection \<open>Mapping and cleanup\<close>

lemma mmap_calls:
  "calls (snd (mmap env sz access fd off w)) =
     calls w @ [Mmap fd off sz
                  (case access of READ \<Rightarrow> PROT_READ | WRITE \<Rightarrow> PROT_READ OR PROT_WRITE | COPY \<Rightarrow> PROT_READ OR PROT_WRITE)
                  (case access of READ \<Rightarrow> MAP_SHARED | WRITE \<Rightarrow> MAP_SHARED | COPY \<Rightarrow> MAP_PRIVATE)]"
  by (cases access) (simp_all add: mmap_def unix_Mmap_def emit_def Let_def split: prod.splits)

lemma mmap_draws: "draws (snd (mmap env sz access fd off w)) = draws w"
  by (cases access) (simp_all add: mmap_def unix_Mmap_def emit_def Let_def split: prod.splits)

lemma mmap_result:
  "fst (mmap env sz access fd off w) =
     (if snd (mmap_ret env (length (calls w))) \<noteq> 0 then Inl (Errno (snd (mmap_ret env (length (calls w)))))
      else Inr (Mapped (fst (mmap_ret env (length (calls w)))) sz))"
  by (cases access) (simp_all add: mmap_def unix_Mmap_def emit_def Let_def split: prod.splits)

lemma map_or_remove_calls:
  "calls (snd (map_or_remove env file sz access w)) =
     calls w @ Mmap (Fd file) 0 sz
                  (case access of READ \<Rightarrow> PROT_READ | WRITE \<Rightarrow> PROT_READ OR PROT_WRITE | COPY \<Rightarrow> PROT_READ OR PROT_WRITE)
                  (case access of READ \<Rightarrow> MAP_SHARED | WRITE \<Rightarrow> MAP_SHARED | COPY \<Rightarrow> MAP_PRIVATE)
              # (if snd (mmap_ret env (length (calls w))) \<noteq> 0 then [FileClose file, OsRemove (FName file)] else [])"
proof -
  obtain r w1 where m: "mmap env sz access (Fd file) 0 w = (r, w1)"
    by (cases "mmap env sz access (Fd file) 0 w")
  from m mmap_calls [of env sz access "Fd file" 0 w] mmap_result [of env sz access "Fd file" 0 w]
  show ?thesis
    by (auto simp: map_or_remove_def File_Close_def os_Remove_def emit_def split: sum.splits)
qed

lemma map_or_remove_result:
  "fst (map_or_remove env file sz access w) =
     (if snd (mmap_ret env (length (calls w))) \<noteq> 0
      then Inl (Errorf ''mmap failed with error: %w'' [] (Errno (snd (mmap_ret env (length (calls w))))))
      else Inr \<lparr>f = file, region = Mapped (fst (mmap_ret env (length (calls w)))) sz, unlinked = False\<rparr>)"
proof -
  obtain r w1 where m: "mmap env sz access (Fd file) 0 w = (r, w1)"
    by (cases "mmap env sz access (Fd file) 0 w")
  from m mmap_result [of env sz access "Fd file" 0 w]
  show ?thesis
    by (auto simp: map_or_remove_def File_Close_def os_Remove_def emit_def split: sum.splits)
qed

lemma map_or_remove_draws: "draws (snd (map_or_remove env file sz access w)) = draws w"
proof -
  obtain r w1 where m: "mmap env sz access (Fd file) 0 w = (r, w1)"
    by (cases "mmap env sz access (Fd file) 0 w")
  from m mmap_draws [of env sz access "Fd file" 0 w]
  show ?thesis
    by (auto simp: map_or_remove_def File_Close_def os_Remove_def emit_def split: sum.splits)
qed

lemma map_or_remove_quiet: "unmapped_nothing w (snd (map_or_remove env file sz access w))"
  by (auto simp: unmapped_nothing_iff map_or_remove_calls is_Munmap_def)

lemma truncate_or_unlink_quiet:
  "truncate_or_unlink env ans sz w = Some (e, w') \<Longrightarrow> unmapped_nothing w w'"
  by (auto simp: truncate_or_unlink_def File_Close_def os_Remove_def is_Munmap_def
        unmapped_nothing_iff emit_def
        split: option.splits prod.splits if_splits
        dest!: ftruncate_retry_quiet)

subsection \<open>No function of the package unmaps\<close>

lemma syscall_mmap_quiet:
  "syscall_mmap env file sz access t w = Some (r, w') \<Longrightarrow> unmapped_nothing w w'"
proof (cases t)
  case True
  assume h: "syscall_mmap env file sz access t w = Some (r, w')"
  show ?thesis
  proof (cases "truncate_or_unlink env file sz w")
    case None
    with h True show ?thesis by (simp add: syscall_mmap_def)
  next
    case (Some a)
    obtain e w1 where a: "a = (e, w1)" by (cases a)
    have q: "unmapped_nothing w w1"
      using Some a by (auto dest: truncate_or_unlink_quiet)
    show ?thesis
    proof (cases e)
      case None
      with h True Some a have "w' = snd (map_or_remove env file sz access w1)"
        by (auto simp: syscall_mmap_def)
      with q show ?thesis
        using map_or_remove_quiet unmapped_nothing_trans by blast
    next
      case (Some err)
      with h True \<open>truncate_or_unlink env file sz w = Some a\<close> a have "w' = w1"
        by (auto simp: syscall_mmap_def)
      with q show ?thesis by simp
    qed
  qed
next
  case False
  assume h: "syscall_mmap env file sz access t w = Some (r, w')"
  with False have "w' = snd (map_or_remove env file sz access w)"
    by (auto simp: syscall_mmap_def)
  then show ?thesis by (simp add: map_or_remove_quiet)
qed

lemma next_random_calls: "calls (snd (next_random env w)) = calls w"
  by (simp add: next_random_def rand_draw_def)

lemma create_loop_quiet:
  assumes h: "create_loop env pf prefix suffix try w = Some y"
  shows "unmapped_nothing w (snd y)"
proof (rule create_loop.raw_induct[where P = "\<lambda>env pf prefix suffix try w y. unmapped_nothing w (snd y)", OF _ h], goal_cases)
  case (1 cl env pf prefix suffix att w y)
  define rn where "rn = next_random env w"
  define name where "name = prefix @ fst rn @ suffix"
  have r0: "unmapped_nothing w (snd rn)"
    by (simp add: rn_def unmapped_nothing_same next_random_calls)
  show ?case
  proof (cases "length name > SHM_NAME_MAX pf")
    case True
    with 1(2) have "snd y = snd rn"
      by (auto simp: Let_def rn_def name_def)
    with r0 show ?thesis by simp
  next
    case False
    show ?thesis
    proof (cases "shm_open env name (O_EXCL OR O_CREATE OR O_RDWR) 384 (snd rn)")
      case None
      with False 1(2) show ?thesis
        by (simp add: Let_def rn_def name_def)
    next
      case (Some a)
      obtain r w1 where a: "a = (r, w1)" by (cases a)
      have q: "unmapped_nothing w w1"
        using Some a r0 shm_open_quiet unmapped_nothing_trans by blast
      have body: "(case r of
                  Inl err \<Rightarrow>
                   if already_exists err
                   then if att + 1 > 10000
                        then Some (Inl (PathError ''createtemp'' (prefix @ ''*'' @ suffix) ErrExist), w1)
                        else cl env pf prefix suffix (att + 1) w1
                   else Some (Inl err, w1)
               | Inr fl \<Rightarrow> Some (Inr fl, w1)) = Some y"
        using 1(2) False Some a by (simp add: Let_def rn_def name_def)
      show ?thesis
      proof (cases r)
        case (Inr fl)
        with body q show ?thesis by auto
      next
        case (Inl err)
        show ?thesis
        proof (cases "already_exists err \<and> \<not> att + 1 > 10000")
          case True
          with body Inl have "cl env pf prefix suffix (att + 1) w1 = Some y" by simp
          from 1(1)[OF this] q show ?thesis
            using unmapped_nothing_trans by blast
        next
          case False
          with body Inl have "snd y = w1" by (auto split: if_splits)
          with q show ?thesis by simp
        qed
      qed
    qed
  qed
qed

lemma create_temp_quiet:
  assumes h: "create_temp env pf pattern sz w = Some (r, w')"
  shows "unmapped_nothing w w'"
proof (cases "prefix_and_suffix pattern")
  case (Inl err)
  with h show ?thesis by (simp add: create_temp_def unmapped_nothing_same)
next
  case (Inr ps)
  obtain p s where ps: "ps = (p, s)" by (cases ps)
  show ?thesis
  proof (cases "create_loop env pf (effective_prefix pf pattern p) s 0 w")
    case None
    with h Inr ps show ?thesis by (simp add: create_temp_def)
  next
    case (Some a)
    obtain r1 w1 where a: "a = (r1, w1)" by (cases a)
    have q: "unmapped_nothing w w1"
      using create_loop_quiet [OF Some] a by simp
    show ?thesis
    proof (cases r1)
      case (Inl err)
      with h Inr ps Some a have "w' = w1" by (simp add: create_temp_def)
      with q show ?thesis by simp
    next
      case (Inr fl)
      with h \<open>prefix_and_suffix pattern = Inr ps\<close> ps Some a
      have "syscall_mmap env fl sz RDWR True w1 = Some (r, w')"
        by (simp add: create_temp_def)
      with q show ?thesis
        using syscall_mmap_quiet unmapped_nothing_trans by blast
    qed
  qed
qed

lemma Open_quiet:
  assumes h: "Open env name w = Some (r, w')"
  shows "unmapped_nothing w w'"
proof (cases "shm_open env name O_RDONLY 0 w")
  case None
  with h show ?thesis by (simp add: Open_def)
next
  case (Some a)
  obtain r1 w1 where a: "a = (r1, w1)" by (cases a)
  have q: "unmapped_nothing w w1"
    using Some a shm_open_quiet by blast
  show ?thesis
  proof (cases r1)
    case (Inl err)
    with h Some a have "w' = w1" by (simp add: Open_def)
    with q show ?thesis by simp
  next
    case (Inr ans)
    have q2: "unmapped_nothing w (emit (OsStat name) w1)"
      using q unmapped_nothing_emit [of "OsStat name" w1] unmapped_nothing_trans
      by (simp add: is_Munmap_def)
    show ?thesis
    proof (cases "stat_ret env (length (calls w1))")
      case (Inl err)
      with h Some a Inr have "w' = emit (FileClose ans) (emit (OsStat name) w1)"
        by (simp add: Open_def os_Stat_def File_Close_def)
      with q2 show ?thesis
        using unmapped_nothing_emit [of "FileClose ans" "emit (OsStat name) w1"] unmapped_nothing_trans
        by (simp add: is_Munmap_def)
    next
      case (Inr size)
      with h Some a \<open>r1 = Inr ans\<close>
      have "syscall_mmap env ans size READ False (emit (OsStat name) w1) = Some (r, w')"
        by (simp add: Open_def os_Stat_def)
      with q2 show ?thesis
        using syscall_mmap_quiet unmapped_nothing_trans by blast
    qed
  qed
qed

lemma Close_calls: "calls (snd (snd (Close env self w))) = calls w @ [FileClose (f self)]"
  by (simp add: Close_def File_Close_def emit_def)

lemma Unlink_quiet: "Unlink env self w = Some (err, self', w') \<Longrightarrow> unmapped_nothing w w'"
  by (auto simp: Unlink_def unmapped_nothing_same split: if_splits option.splits dest: shm_unlink_quiet)

lemma invoke_quiet: "invoke env m self w = Some (self', w') \<Longrightarrow> unmapped_nothing w w'"
proof (cases m)
  case Call_Close
  assume "invoke env m self w = Some (self', w')"
  with Call_Close have "w' = snd (snd (Close env self w))"
    by (auto split: prod.splits)
  then show ?thesis
    by (simp add: unmapped_nothing_iff Close_calls is_Munmap_def)
next
  case Call_Unlink
  assume "invoke env m self w = Some (self', w')"
  with Call_Unlink show ?thesis
    by (auto split: option.splits dest: Unlink_quiet)
next
  case Call_Slice
  assume "invoke env m self w = Some (self', w')"
  with Call_Slice show ?thesis by (simp add: unmapped_nothing_same)
next
  case Call_Name
  assume "invoke env m self w = Some (self', w')"
  with Call_Name show ?thesis by (simp add: unmapped_nothing_same)
qed

lemma invoke_all_quiet:
  "invoke_all env ms self w = Some (self', w') \<Longrightarrow> unmapped_nothing w w'"
proof (induction ms arbitrary: self w)
  case Nil
  then show ?case by (simp add: unmapped_nothing_same)
next
  case (Cons m ms)
  then obtain s1 w1 where a: "invoke env m self w = Some (s1, w1)"
    and b: "invoke_all env ms s1 w1 = Some (self', w')"
    by (auto split: option.splits)
  from invoke_quiet [OF a] Cons.IH [OF b] show ?case
    by (rule unmapped_nothing_trans)
qed

section \<open>Properties\<close>

text \<open>
  C1. \<^verbatim>\<open>Unlink\<close> on a handle that is not yet unlinked should issue the shared-memory unlink
  primitive for the handle's name. It does not: \<^verbatim>\<open>shm_unlink\<close> traps into
  \<^verbatim>\<open>SYS_SHM_OPEN\<close> with flags and mode zero. On the handle \<open>h0\<close>, in an environment
  where the call succeeds, the only call made is that open, and no error is reported.
\<close>

theorem Unlink_issues_SYS_SHM_OPEN:
  "Unlink quiet_os h0 w0 =
     Some (None, h0\<lparr>unlinked := True\<rparr>,
           \<lparr>calls = [Syscall SYS_SHM_OPEN (''/kitty-2a'' @ [CHR 0x00]) 0 0], draws = 0\<rparr>)"
  by (simp add: Unlink_def shm_unlink_now quiet_os_def h0_def w0_def EINTR_def Name_def emit_def
        BytePtrFromString_def ByteSliceFromString_def)

text \<open>
  C6. A pattern that contains a path separator makes \<^verbatim>\<open>CreateTemp\<close> fail with
  \<^verbatim>\<open>ErrPatternHasSeparator\<close>, and the world is left as it was: no call is issued and no
  random number is drawn.
\<close>

theorem CreateTemp_separator:
  "\<exists>c\<in>set pattern. IsPathSeparator c \<Longrightarrow>
     CreateTemp env pf pattern sz w = Some (Inl ErrPatternHasSeparator, w)"
  by (simp add: CreateTemp_def create_temp_def prefix_and_suffix_def list_ex_iff)

theorem CreateTemp_separator_witness:
  "(\<exists>c\<in>set ''kitty/shm-*''. IsPathSeparator c) \<and>
   CreateTemp quiet_os freebsd ''kitty/shm-*'' 64 w0 = Some (Inl ErrPatternHasSeparator, w0)"
  using CreateTemp_separator [of "''kitty/shm-*''" quiet_os freebsd 64 w0]
  by (simp add: IsPathSeparator_def)

lemma invoke_keeps_nil:
  "region self = nil \<Longrightarrow> invoke env m self w = Some (self', w') \<Longrightarrow> region self' = nil"
  by (cases m) (auto simp: Close_def Unlink_def File_Close_def split: option.splits if_splits prod.splits)

lemma invoke_all_keeps_nil:
  "region self = nil \<Longrightarrow> invoke_all env ms self w = Some (self', w') \<Longrightarrow> region self' = nil"
proof (induction ms arbitrary: self w)
  case Nil
  then show ?case by simp
next
  case (Cons m ms)
  then show ?case
    by (auto split: option.splits dest: invoke_keeps_nil)
qed

text \<open>
  C8. \<^verbatim>\<open>Close\<close> sets the handle's region to nil, so \<^verbatim>\<open>Slice\<close> returns nil right after
  it, and still does after any further sequence of calls of methods on the handle.
\<close>

theorem Slice_after_Close:
  "Close env self w = (err, self1, w1) \<Longrightarrow>
     Slice self1 = nil \<and>
     (invoke_all env' ms self1 w1 = Some (self2, w2) \<longrightarrow> Slice self2 = nil)"
  using invoke_all_keeps_nil [of self1 env' ms w1 self2 w2]
  by (auto simp: Close_def Slice_def File_Close_def split: prod.splits)

theorem Slice_after_Close_witness:
  "Close quiet_os h0 w0 = (None, h0\<lparr>region := nil\<rparr>, \<lparr>calls = [FileClose (NewFile 3 ''/kitty-2a'')], draws = 0\<rparr>)
   \<and> Slice h0 = Mapped 4096 64
   \<and> Slice (h0\<lparr>region := nil\<rparr>) = nil
   \<and> invoke_all quiet_os [Call_Slice, Call_Unlink, Call_Name, Call_Close, Call_Slice] (h0\<lparr>region := nil\<rparr>)
        \<lparr>calls = [FileClose (NewFile 3 ''/kitty-2a'')], draws = 0\<rparr>
      = Some (h0\<lparr>region := nil, unlinked := True\<rparr>,
          \<lparr>calls = [FileClose (NewFile 3 ''/kitty-2a''), Syscall SYS_SHM_OPEN (''/kitty-2a'' @ [CHR 0x00]) 0 0,
                     FileClose (NewFile 3 ''/kitty-2a'')], draws = 0\<rparr>)
   \<and> Slice (h0\<lparr>region := nil, unlinked := True\<rparr>) = nil"
  using Slice_after_Close [of quiet_os h0 w0 None "h0\<lparr>region := nil\<rparr>"
      "\<lparr>calls = [FileClose (NewFile 3 ''/kitty-2a'')], draws = 0\<rparr>" quiet_os
      "[Call_Slice, Call_Unlink, Call_Name, Call_Close, Call_Slice]"
      "h0\<lparr>region := nil, unlinked := True\<rparr>"
      "\<lparr>calls = [FileClose (NewFile 3 ''/kitty-2a''), Syscall SYS_SHM_OPEN (''/kitty-2a'' @ [CHR 0x00]) 0 0,
                     FileClose (NewFile 3 ''/kitty-2a'')], draws = 0\<rparr>"]
  by (simp add: Close_def Slice_def File_Close_def Unlink_def shm_unlink_now quiet_os_def h0_def w0_def
        EINTR_def Name_def emit_def BytePtrFromString_def ByteSliceFromString_def)

text \<open>
  C10. \<^verbatim>\<open>Close\<close> issues one call, the close of the handle's file, and never
  \<^verbatim>\<open>unix.Munmap\<close>. Nor does any sequence of calls of \<^verbatim>\<open>Close\<close>, \<^verbatim>\<open>Unlink\<close>,
  \<^verbatim>\<open>Slice\<close> and \<^verbatim>\<open>Name\<close>, nor \<^verbatim>\<open>CreateTemp\<close>, nor \<^verbatim>\<open>Open\<close>: the calls they
  add to the trace contain no unmapping, so a mapping once made is not released.
\<close>

theorem Close_never_unmaps:
  "calls (snd (snd (Close env self w))) = calls w @ [FileClose (f self)]
   \<and> (invoke_all env ms self w = Some (self', w1) \<longrightarrow> unmapped_nothing w w1)
   \<and> (CreateTemp env pf pattern sz w = Some (r2, w2) \<longrightarrow> unmapped_nothing w w2)
   \<and> (Open env name w = Some (r3, w3) \<longrightarrow> unmapped_nothing w w3)"
  using Close_calls [of env self w] invoke_all_quiet [of env ms self w self' w1]
    create_temp_quiet [of env pf pattern sz w r2 w2] Open_quiet [of env name w r3 w3]
  by (simp add: CreateTemp_def)

lemma create_quiet_value:
  "create_temp quiet_os freebsd ''kitty-*'' 64 w0 =
     Some (Inr \<lparr>f = NewFile 3 ''/kitty-2a'', region = Mapped 4096 64, unlinked = False\<rparr>,
           \<lparr>calls = [Syscall SYS_SHM_OPEN (''/kitty-2a'' @ [CHR 0x00]) 2562 384, Ftruncate 3 64, Mmap 3 0 64 3 1],
            draws = 1\<rparr>)"
  by code_simp

lemma open_quiet_value:
  "Open quiet_os ''/kitty-2a'' w0 =
     Some (Inr \<lparr>f = NewFile 3 ''/kitty-2a'', region = Mapped 4096 16, unlinked = False\<rparr>,
           \<lparr>calls = [Syscall SYS_SHM_OPEN (''/kitty-2a'' @ [CHR 0x00]) 0 0, OsStat ''/kitty-2a'', Mmap 3 0 16 1 1],
            draws = 0\<rparr>)"
  by code_simp

lemma invoke_quiet_value:
  "invoke_all quiet_os [Call_Slice, Call_Unlink, Call_Name, Call_Close] h0 w0 =
     Some (h0\<lparr>region := nil, unlinked := True\<rparr>,
           \<lparr>calls = [Syscall SYS_SHM_OPEN (''/kitty-2a'' @ [CHR 0x00]) 0 0, FileClose (NewFile 3 ''/kitty-2a'')],
            draws = 0\<rparr>)"
  by code_simp

theorem Close_never_unmaps_witness:
  "calls (snd (snd (Close quiet_os h0 w0))) = calls w0 @ [FileClose (f h0)]
   \<and> invoke_all quiet_os [Call_Slice, Call_Unlink, Call_Name, Call_Close] h0 w0 =
       Some (h0\<lparr>region := nil, unlinked := True\<rparr>,
           \<lparr>calls = [Syscall SYS_SHM_OPEN (''/kitty-2a'' @ [CHR 0x00]) 0 0, FileClose (NewFile 3 ''/kitty-2a'')],
            draws = 0\<rparr>)
   \<and> unmapped_nothing w0 \<lparr>calls = [Syscall SYS_SHM_OPEN (''/kitty-2a'' @ [CHR 0x00]) 0 0, FileClose (NewFile 3 ''/kitty-2a'')],
            draws = 0\<rparr>
   \<and> CreateTemp quiet_os freebsd ''kitty-*'' 64 w0 =
       Some (Inr \<lparr>f = NewFile 3 ''/kitty-2a'', region = Mapped 4096 64, unlinked = False\<rparr>,
           \<lparr>calls = [Syscall SYS_SHM_OPEN (''/kitty-2a'' @ [CHR 0x00]) 2562 384, Ftruncate 3 64, Mmap 3 0 64 3 1],
            draws = 1\<rparr>)
   \<and> unmapped_nothing w0 \<lparr>calls = [Syscall SYS_SHM_OPEN (''/kitty-2a'' @ [CHR 0x00]) 2562 384, Ftruncate 3 64, Mmap 3 0 64 3 1],
            draws = 1\<rparr>
   \<and> Open quiet_os ''/kitty-2a'' w0 =
     Some (Inr \<lparr>f = NewFile 3 ''/kitty-2a'', region = Mapped 4096 16, unlinked = False\<rparr>,
           \<lparr>calls = [Syscall SYS_SHM_OPEN (''/kitty-2a'' @ [CHR 0x00]) 0 0, OsStat ''/kitty-2a'', Mmap 3 0 16 1 1],
            draws = 0\<rparr>)
   \<and> unmapped_nothing w0 \<lparr>calls = [Syscall SYS_SHM_OPEN (''/kitty-2a'' @ [CHR 0x00]) 0 0, OsStat ''/kitty-2a'', Mmap 3 0 16 1 1],
            draws = 0\<rparr>"
  using Close_never_unmaps [of quiet_os h0 w0 "[Call_Slice, Call_Unlink, Call_Name, Call_Close]"
      "h0\<lparr>region := nil, unlinked := True\<rparr>"
      "\<lparr>calls = [Syscall SYS_SHM_OPEN (''/kitty-2a'' @ [CHR 0x00]) 0 0, FileClose (NewFile 3 ''/kitty-2a'')],
            draws = 0\<rparr>"
      freebsd "''kitty-*''" 64
      "Inr \<lparr>f = NewFile 3 ''/kitty-2a'', region = Mapped 4096 64, unlinked = False\<rparr>"
      "\<lparr>calls = [Syscall SYS_SHM_OPEN (''/kitty-2a'' @ [CHR 0x00]) 2562 384, Ftruncate 3 64, Mmap 3 0 64 3 1],
            draws = 1\<rparr>"
      "''/kitty-2a''"
      "Inr \<lparr>f = NewFile 3 ''/kitty-2a'', region = Mapped 4096 16, unlinked = False\<rparr>"
      "\<lparr>calls = [Syscall SYS_SHM_OPEN (''/kitty-2a'' @ [CHR 0x00]) 0 0, OsStat ''/kitty-2a'', Mmap 3 0 16 1 1],
            draws = 0\<rparr>"]
    invoke_quiet_value create_quiet_value open_quiet_value
  unfolding CreateTemp_def by blast

theorem Unlink_first_call_reports_error:
  "Unlink enoent_os h0 w0 =
     Some (Some (Errorf ''shm_unlink() failed with error: %w'' [] (Errno 2)), h0\<lparr>unlinked := True\<rparr>,
           \<lparr>calls = [Syscall SYS_SHM_OPEN (''/kitty-2a'' @ [CHR 0x00]) 0 0], draws = 0\<rparr>)"
  by (simp add: Unlink_def shm_unlink_now enoent_os_def quiet_os_def h0_def w0_def EINTR_def Name_def emit_def
        BytePtrFromString_def ByteSliceFromString_def)

text \<open>
  C7, as amended. On a handle not yet unlinked, the first \<^verbatim>\<open>Unlink\<close> runs \<^verbatim>\<open>shm_unlink\<close>
  on the handle's name once, sets the flag and reports what \<^verbatim>\<open>shm_unlink\<close> reports; a
  second \<^verbatim>\<open>Unlink\<close>, in any environment, issues no call, leaves handle and world as they
  are and reports no error. As stated the claim fails: when the trap of the first call
  answers with an error number, the first call reports an error.
\<close>

theorem Unlink_twice:
  "\<not> unlinked self \<Longrightarrow> shm_unlink env (Name self) w = Some (err, w1) \<Longrightarrow>
     Unlink env self w = Some (err, self\<lparr>unlinked := True\<rparr>, w1)
     \<and> Unlink env' (self\<lparr>unlinked := True\<rparr>) w1 = Some (None, self\<lparr>unlinked := True\<rparr>, w1)"
  by (simp add: Unlink_def Name_def)

lemma shm_unlink_quiet_value:
  "shm_unlink quiet_os ''/kitty-2a'' w0 =
     Some (None, \<lparr>calls = [Syscall SYS_SHM_OPEN (''/kitty-2a'' @ [CHR 0x00]) 0 0], draws = 0\<rparr>)"
  by code_simp

theorem Unlink_twice_witness:
  "\<not> unlinked h0
   \<and> shm_unlink quiet_os (Name h0) w0 =
       Some (None, \<lparr>calls = [Syscall SYS_SHM_OPEN (''/kitty-2a'' @ [CHR 0x00]) 0 0], draws = 0\<rparr>)
   \<and> Unlink quiet_os h0 w0 =
       Some (None, h0\<lparr>unlinked := True\<rparr>,
             \<lparr>calls = [Syscall SYS_SHM_OPEN (''/kitty-2a'' @ [CHR 0x00]) 0 0], draws = 0\<rparr>)
   \<and> Unlink enoent_os (h0\<lparr>unlinked := True\<rparr>)
         \<lparr>calls = [Syscall SYS_SHM_OPEN (''/kitty-2a'' @ [CHR 0x00]) 0 0], draws = 0\<rparr> =
       Some (None, h0\<lparr>unlinked := True\<rparr>,
             \<lparr>calls = [Syscall SYS_SHM_OPEN (''/kitty-2a'' @ [CHR 0x00]) 0 0], draws = 0\<rparr>)"
proof -
  have a: "\<not> unlinked h0" by (simp add: h0_def)
  have b: "shm_unlink quiet_os (Name h0) w0 =
       Some (None, \<lparr>calls = [Syscall SYS_SHM_OPEN (''/kitty-2a'' @ [CHR 0x00]) 0 0], draws = 0\<rparr>)"
    using shm_unlink_quiet_value by (simp add: Name_def h0_def)
  from a b Unlink_twice [OF a b, of enoent_os] show ?thesis by blast
qed

lemma truncate_or_unlink_run:
  assumes "truncate_or_unlink env ans sz w = Some (r, w')"
  shows "\<exists>n e. calls w' = calls w @ replicate (Suc n) (Ftruncate (Fd ans) sz)
                    @ (if e \<noteq> 0 then [FileClose ans, OsRemove (FName ans)] else [])
          \<and> draws w' = draws w \<and> e \<noteq> EINTR
          \<and> r = (if e \<noteq> 0
                 then Some (Errorf ''Failed to ftruncate() SHM file %s to size: %d with error: %w''
                              [S (FName ans), U sz] (Errno e))
                 else None)"
proof -
  from assms obtain e w1 where ft: "ftruncate_retry env (Fd ans) sz w = Some (e, w1)"
    by (auto simp: truncate_or_unlink_def split: option.splits)
  from ftruncate_retry_trace [OF ft] obtain n where
    n: "calls w1 = calls w @ replicate (Suc n) (Ftruncate (Fd ans) sz)" "draws w1 = draws w" "e \<noteq> EINTR"
    by auto
  show ?thesis
  proof (cases "e = 0")
    case True
    with assms ft have "w' = w1" "r = None"
      by (auto simp: truncate_or_unlink_def)
    with n True show ?thesis
      by (intro exI [of _ n] exI [of _ e]) simp
  next
    case False
    with assms ft have "w' = emit (OsRemove (FName ans)) (emit (FileClose ans) w1)"
      "r = Some (Errorf ''Failed to ftruncate() SHM file %s to size: %d with error: %w''
                              [S (FName ans), U sz] (Errno e))"
      by (auto simp: truncate_or_unlink_def File_Close_def os_Remove_def)
    with n False show ?thesis
      by (intro exI [of _ n] exI [of _ e]) (simp add: emit_def)
  qed
qed

lemma syscall_mmap_maps:
  assumes h: "syscall_mmap env fl sz access t w = Some (r, w')"
  shows "\<exists>cs. calls w' = calls w @ cs \<and>
           (\<forall>c\<in>set cs. is_Mmap c \<longrightarrow> c = Mmap (Fd fl) 0 sz
                  (case access of READ \<Rightarrow> PROT_READ | WRITE \<Rightarrow> PROT_READ OR PROT_WRITE | COPY \<Rightarrow> PROT_READ OR PROT_WRITE)
                  (case access of READ \<Rightarrow> MAP_SHARED | WRITE \<Rightarrow> MAP_SHARED | COPY \<Rightarrow> MAP_PRIVATE))"
proof -
  let ?M = "Mmap (Fd fl) 0 sz
                  (case access of READ \<Rightarrow> PROT_READ | WRITE \<Rightarrow> PROT_READ OR PROT_WRITE | COPY \<Rightarrow> PROT_READ OR PROT_WRITE)
                  (case access of READ \<Rightarrow> MAP_SHARED | WRITE \<Rightarrow> MAP_SHARED | COPY \<Rightarrow> MAP_PRIVATE)"
  have m: "\<And>w1. \<exists>cs. calls (snd (map_or_remove env fl sz access w1)) = calls w1 @ cs \<and>
           (\<forall>c\<in>set cs. is_Mmap c \<longrightarrow> c = ?M)"
    by (auto simp: map_or_remove_calls is_Mmap_def)
  show ?thesis
  proof (cases t)
    case False
    with h have "w' = snd (map_or_remove env fl sz access w)"
      by (auto simp: syscall_mmap_def)
    with m show ?thesis by simp
  next
    case True
    with h obtain e w1 where tr: "truncate_or_unlink env fl sz w = Some (e, w1)"
      by (auto simp: syscall_mmap_def split: option.splits)
    from truncate_or_unlink_run [OF tr] obtain cs1 where
      c1: "calls w1 = calls w @ cs1" "\<forall>c\<in>set cs1. \<not> is_Mmap c"
      by (auto simp: is_Mmap_def split: if_splits)
    show ?thesis
    proof (cases e)
      case (Some err)
      with h True tr have "w' = w1" by (simp add: syscall_mmap_def)
      with c1 show ?thesis by auto
    next
      case None
      with h True tr have "w' = snd (map_or_remove env fl sz access w1)"
        by (auto simp: syscall_mmap_def)
      with m [of w1] c1 show ?thesis by auto
    qed
  qed
qed

lemma syscall_mmap_handle:
  assumes h: "syscall_mmap env fl sz access t w = Some (Inr self, w')"
  shows "f self = fl \<and> \<not> unlinked self \<and> (\<exists>addr. region self = Mapped addr sz)
     \<and> Mmap (Fd fl) 0 sz
          (case access of READ \<Rightarrow> PROT_READ | WRITE \<Rightarrow> PROT_READ OR PROT_WRITE | COPY \<Rightarrow> PROT_READ OR PROT_WRITE)
          (case access of READ \<Rightarrow> MAP_SHARED | WRITE \<Rightarrow> MAP_SHARED | COPY \<Rightarrow> MAP_PRIVATE) = last (calls w')"
proof -
  from h obtain w1 where mr: "map_or_remove env fl sz access w1 = (Inr self, w')"
    by (auto simp: syscall_mmap_def split: if_splits option.splits)
  from mr map_or_remove_result [of env fl sz access w1]
  have ok: "snd (mmap_ret env (length (calls w1))) = 0"
    and self: "self = \<lparr>f = fl, region = Mapped (fst (mmap_ret env (length (calls w1)))) sz, unlinked = False\<rparr>"
    by (auto split: if_splits)
  from mr map_or_remove_calls [of env fl sz access w1] ok
  have "calls w' = calls w1 @ [Mmap (Fd fl) 0 sz
          (case access of READ \<Rightarrow> PROT_READ | WRITE \<Rightarrow> PROT_READ OR PROT_WRITE | COPY \<Rightarrow> PROT_READ OR PROT_WRITE)
          (case access of READ \<Rightarrow> MAP_SHARED | WRITE \<Rightarrow> MAP_SHARED | COPY \<Rightarrow> MAP_PRIVATE)]"
    by simp
  with self show ?thesis by simp
qed

text \<open>
  C9. \<^verbatim>\<open>mmap\<close> issues exactly one \<^verbatim>\<open>unix.Mmap\<close>, for the descriptor, offset and length
  it was given: \<^verbatim>\<open>READ\<close> asks for \<^verbatim>\<open>PROT_READ\<close> and \<^verbatim>\<open>MAP_SHARED\<close>, \<^verbatim>\<open>WRITE\<close> for
  \<^verbatim>\<open>PROT_READ|PROT_WRITE\<close> and \<^verbatim>\<open>MAP_SHARED\<close>, \<^verbatim>\<open>COPY\<close> for
  \<^verbatim>\<open>PROT_READ|PROT_WRITE\<close> and \<^verbatim>\<open>MAP_PRIVATE\<close>. Every mapping that \<^verbatim>\<open>syscall_mmap\<close>
  requests is for the file's descriptor, at offset zero, of exactly the size it was given, and
  the region of the handle it returns has that length.
\<close>

theorem mmap_translates_access:
  "calls (snd (mmap env sz access fd off w)) =
     calls w @ [Mmap fd off sz
                  (case access of READ \<Rightarrow> PROT_READ | WRITE \<Rightarrow> PROT_READ OR PROT_WRITE | COPY \<Rightarrow> PROT_READ OR PROT_WRITE)
                  (case access of READ \<Rightarrow> MAP_SHARED | WRITE \<Rightarrow> MAP_SHARED | COPY \<Rightarrow> MAP_PRIVATE)]
   \<and> PROT_READ AND PROT_WRITE = 0 \<and> MAP_SHARED \<noteq> MAP_PRIVATE
   \<and> (syscall_mmap env' fl sz' access' t w' = Some (r, w'') \<longrightarrow>
        calls w'' = calls w' @ issued w' w'' \<and>
        (\<forall>c\<in>set (issued w' w''). is_Mmap c \<longrightarrow> c = Mmap (Fd fl) 0 sz'
                  (case access' of READ \<Rightarrow> PROT_READ | WRITE \<Rightarrow> PROT_READ OR PROT_WRITE | COPY \<Rightarrow> PROT_READ OR PROT_WRITE)
                  (case access' of READ \<Rightarrow> MAP_SHARED | WRITE \<Rightarrow> MAP_SHARED | COPY \<Rightarrow> MAP_PRIVATE)) \<and>
        (\<forall>self. r = Inr self \<longrightarrow> (\<exists>addr. region self = Mapped addr sz') \<and>
            last (calls w'') = Mmap (Fd fl) 0 sz'
                  (case access' of READ \<Rightarrow> PROT_READ | WRITE \<Rightarrow> PROT_READ OR PROT_WRITE | COPY \<Rightarrow> PROT_READ OR PROT_WRITE)
                  (case access' of READ \<Rightarrow> MAP_SHARED | WRITE \<Rightarrow> MAP_SHARED | COPY \<Rightarrow> MAP_PRIVATE)))"
proof (intro conjI impI allI)
  show "calls (snd (mmap env sz access fd off w)) =
     calls w @ [Mmap fd off sz
                  (case access of READ \<Rightarrow> PROT_READ | WRITE \<Rightarrow> PROT_READ OR PROT_WRITE | COPY \<Rightarrow> PROT_READ OR PROT_WRITE)
                  (case access of READ \<Rightarrow> MAP_SHARED | WRITE \<Rightarrow> MAP_SHARED | COPY \<Rightarrow> MAP_PRIVATE)]"
    by (rule mmap_calls)
  show "PROT_READ AND PROT_WRITE = 0" by (simp add: PROT_READ_def PROT_WRITE_def)
  show "MAP_SHARED \<noteq> MAP_PRIVATE" by (simp add: MAP_SHARED_def MAP_PRIVATE_def)
next
  assume h: "syscall_mmap env' fl sz' access' t w' = Some (r, w'')"
  from syscall_mmap_maps [OF h] obtain cs where cs: "calls w'' = calls w' @ cs"
    "\<forall>c\<in>set cs. is_Mmap c \<longrightarrow> c = Mmap (Fd fl) 0 sz'
                  (case access' of READ \<Rightarrow> PROT_READ | WRITE \<Rightarrow> PROT_READ OR PROT_WRITE | COPY \<Rightarrow> PROT_READ OR PROT_WRITE)
                  (case access' of READ \<Rightarrow> MAP_SHARED | WRITE \<Rightarrow> MAP_SHARED | COPY \<Rightarrow> MAP_PRIVATE)"
    by blast
  then have i: "issued w' w'' = cs" by (simp add: issued_def)
  show "calls w'' = calls w' @ issued w' w''" using cs i by simp
  show "\<forall>c\<in>set (issued w' w''). is_Mmap c \<longrightarrow> c = Mmap (Fd fl) 0 sz'
                  (case access' of READ \<Rightarrow> PROT_READ | WRITE \<Rightarrow> PROT_READ OR PROT_WRITE | COPY \<Rightarrow> PROT_READ OR PROT_WRITE)
                  (case access' of READ \<Rightarrow> MAP_SHARED | WRITE \<Rightarrow> MAP_SHARED | COPY \<Rightarrow> MAP_PRIVATE)"
    using cs i by simp
next
  fix self
  assume h: "syscall_mmap env' fl sz' access' t w' = Some (r, w'')" and r: "r = Inr self"
  from syscall_mmap_handle [of env' fl sz' access' t w' self w''] h r
  show "\<exists>addr. region self = Mapped addr sz'" by simp
  from syscall_mmap_handle [of env' fl sz' access' t w' self w''] h r
  show "last (calls w'') = Mmap (Fd fl) 0 sz'
                  (case access' of READ \<Rightarrow> PROT_READ | WRITE \<Rightarrow> PROT_READ OR PROT_WRITE | COPY \<Rightarrow> PROT_READ OR PROT_WRITE)
                  (case access' of READ \<Rightarrow> MAP_SHARED | WRITE \<Rightarrow> MAP_SHARED | COPY \<Rightarrow> MAP_PRIVATE)"
    by simp
qed

theorem mmap_translates_access_witness:
  "calls (snd (mmap quiet_os 64 COPY 3 0 w0)) = [Mmap 3 0 64 3 2]
   \<and> calls (snd (mmap quiet_os 64 WRITE 3 0 w0)) = [Mmap 3 0 64 3 1]
   \<and> calls (snd (mmap quiet_os 64 READ 3 0 w0)) = [Mmap 3 0 64 1 1]
   \<and> syscall_mmap quiet_os (NewFile 3 ''/kitty-2a'') 64 WRITE True w0 =
       Some (Inr \<lparr>f = NewFile 3 ''/kitty-2a'', region = Mapped 4096 64, unlinked = False\<rparr>,
             \<lparr>calls = [Ftruncate 3 64, Mmap 3 0 64 3 1], draws = 0\<rparr>)
   \<and> issued w0 \<lparr>calls = [Ftruncate 3 64, Mmap 3 0 64 3 1], draws = 0\<rparr> = [Ftruncate 3 64, Mmap 3 0 64 3 1]
   \<and> is_Mmap (Mmap 3 0 64 3 1) \<and> \<not> is_Mmap (Ftruncate 3 64)"
proof -
  have v: "syscall_mmap quiet_os (NewFile 3 ''/kitty-2a'') 64 WRITE True w0 =
       Some (Inr \<lparr>f = NewFile 3 ''/kitty-2a'', region = Mapped 4096 64, unlinked = False\<rparr>,
             \<lparr>calls = [Ftruncate 3 64, Mmap 3 0 64 3 1], draws = 0\<rparr>)"
    by code_simp
  have c: "PROT_READ OR PROT_WRITE = 3" "PROT_READ = 1" "MAP_SHARED = 1" "MAP_PRIVATE = 2"
    by (simp_all add: PROT_READ_def PROT_WRITE_def MAP_SHARED_def MAP_PRIVATE_def)
  have i: "issued w0 \<lparr>calls = [Ftruncate 3 64, Mmap 3 0 64 3 1], draws = 0\<rparr> = [Ftruncate 3 64, Mmap 3 0 64 3 1]"
    by (simp add: issued_def w0_def)
  have m: "is_Mmap (Mmap 3 0 64 3 1)" "\<not> is_Mmap (Ftruncate 3 64)"
    by (simp_all add: is_Mmap_def)
  have w: "calls w0 = []" by (simp add: w0_def)
  from mmap_translates_access [of quiet_os 64 COPY 3 0 w0 quiet_os "NewFile 3 ''/kitty-2a''" 64 WRITE True w0
      "Inr \<lparr>f = NewFile 3 ''/kitty-2a'', region = Mapped 4096 64, unlinked = False\<rparr>"
      "\<lparr>calls = [Ftruncate 3 64, Mmap 3 0 64 3 1], draws = 0\<rparr>"]
    mmap_calls [of quiet_os 64 WRITE 3 0 w0] mmap_calls [of quiet_os 64 READ 3 0 w0]
    v c i m w
  show ?thesis by simp
qed

text \<open>
  C5. \<^verbatim>\<open>Open\<close> traps into \<^verbatim>\<open>SYS_SHM_OPEN\<close> for exactly the given name with flags
  \<^verbatim>\<open>O_RDONLY\<close> (no \<^verbatim>\<open>O_CREATE\<close> bit) and mode zero. Once the object is open it asks
  \<^verbatim>\<open>os.Stat\<close> for the size; if that fails it closes the file it has just opened and
  returns the error of the query; otherwise it maps the descriptor with \<^verbatim>\<open>PROT_READ\<close>,
  \<^verbatim>\<open>MAP_SHARED\<close>, offset zero and the size queried, and returns the handle made of the
  file and the region.
\<close>

theorem Open_reads_stats_maps:
  assumes "shm_open env name O_RDONLY 0 w = Some (Inr ans, w1)"
  shows "(\<exists>n. calls w1 = calls w @ replicate (Suc n) (Syscall SYS_SHM_OPEN (BytePtrFromString name) O_RDONLY 0))
     \<and> O_RDONLY AND O_CREATE = 0
     \<and> FName ans = name
     \<and> (case stat_ret env (length (calls w1)) of
          Inl err \<Rightarrow> Open env name w = Some (Inl err, w1\<lparr>calls := calls w1 @ [OsStat name, FileClose ans]\<rparr>)
        | Inr sz \<Rightarrow>
            (snd (mmap_ret env (Suc (length (calls w1)))) = 0 \<longrightarrow>
               Open env name w =
                 Some (Inr \<lparr>f = ans, region = Mapped (fst (mmap_ret env (Suc (length (calls w1))))) sz, unlinked = False\<rparr>,
                       w1\<lparr>calls := calls w1 @ [OsStat name, Mmap (Fd ans) 0 sz PROT_READ MAP_SHARED]\<rparr>)))"
proof (intro conjI)
  from shm_open_trace [OF assms]
  show "\<exists>n. calls w1 = calls w @ replicate (Suc n) (Syscall SYS_SHM_OPEN (BytePtrFromString name) O_RDONLY 0)"
    by auto
  show "O_RDONLY AND O_CREATE = 0" by (simp add: O_RDONLY_def)
  from shm_open_result [OF assms] show "FName ans = name" by auto
  show "case stat_ret env (length (calls w1)) of
          Inl err \<Rightarrow> Open env name w = Some (Inl err, w1\<lparr>calls := calls w1 @ [OsStat name, FileClose ans]\<rparr>)
        | Inr sz \<Rightarrow>
            (snd (mmap_ret env (Suc (length (calls w1)))) = 0 \<longrightarrow>
               Open env name w =
                 Some (Inr \<lparr>f = ans, region = Mapped (fst (mmap_ret env (Suc (length (calls w1))))) sz, unlinked = False\<rparr>,
                       w1\<lparr>calls := calls w1 @ [OsStat name, Mmap (Fd ans) 0 sz PROT_READ MAP_SHARED]\<rparr>))"
  proof (cases "stat_ret env (length (calls w1))")
    case (Inl err)
    with assms show ?thesis
      by (simp add: Open_def os_Stat_def File_Close_def emit_def)
  next
    case (Inr sz)
    have "snd (mmap_ret env (Suc (length (calls w1)))) = 0 \<Longrightarrow>
        map_or_remove env ans sz READ (emit (OsStat name) w1) =
          (Inr \<lparr>f = ans, region = Mapped (fst (mmap_ret env (Suc (length (calls w1))))) sz, unlinked = False\<rparr>,
           w1\<lparr>calls := calls w1 @ [OsStat name, Mmap (Fd ans) 0 sz PROT_READ MAP_SHARED]\<rparr>)"
      by (auto simp: map_or_remove_def mmap_def unix_Mmap_def emit_def Let_def split: prod.splits)
    with assms Inr show ?thesis
      by (simp add: Open_def os_Stat_def syscall_mmap_def)
  qed
qed

theorem Open_reads_stats_maps_witness:
  "shm_open quiet_os ''/kitty-2a'' O_RDONLY 0 w0 =
     Some (Inr (NewFile 3 ''/kitty-2a''), \<lparr>calls = [Syscall SYS_SHM_OPEN (''/kitty-2a'' @ [CHR 0x00]) 0 0], draws = 0\<rparr>)
   \<and> Open quiet_os ''/kitty-2a'' w0 =
     Some (Inr \<lparr>f = NewFile 3 ''/kitty-2a'', region = Mapped 4096 16, unlinked = False\<rparr>,
           \<lparr>calls = [Syscall SYS_SHM_OPEN (''/kitty-2a'' @ [CHR 0x00]) 0 0, OsStat ''/kitty-2a'', Mmap 3 0 16 1 1],
            draws = 0\<rparr>)
   \<and> shm_open statfail_os ''/kitty-2a'' O_RDONLY 0 w0 =
     Some (Inr (NewFile 3 ''/kitty-2a''), \<lparr>calls = [Syscall SYS_SHM_OPEN (''/kitty-2a'' @ [CHR 0x00]) 0 0], draws = 0\<rparr>)
   \<and> Open statfail_os ''/kitty-2a'' w0 =
     Some (Inl (PathError ''stat'' ''/kitty-2a'' (Errno 2)),
           \<lparr>calls = [Syscall SYS_SHM_OPEN (''/kitty-2a'' @ [CHR 0x00]) 0 0, OsStat ''/kitty-2a'',
                      FileClose (NewFile 3 ''/kitty-2a'')],
            draws = 0\<rparr>)"
proof -
  have a: "shm_open quiet_os ''/kitty-2a'' O_RDONLY 0 w0 =
     Some (Inr (NewFile 3 ''/kitty-2a''), \<lparr>calls = [Syscall SYS_SHM_OPEN (''/kitty-2a'' @ [CHR 0x00]) 0 0], draws = 0\<rparr>)"
    by code_simp
  have b: "shm_open statfail_os ''/kitty-2a'' O_RDONLY 0 w0 =
     Some (Inr (NewFile 3 ''/kitty-2a''), \<lparr>calls = [Syscall SYS_SHM_OPEN (''/kitty-2a'' @ [CHR 0x00]) 0 0], draws = 0\<rparr>)"
    by code_simp
  from a b Open_reads_stats_maps [OF a] Open_reads_stats_maps [OF b]
  show ?thesis
    by (simp add: quiet_os_def statfail_os_def PROT_READ_def MAP_SHARED_def)
qed

lemma FormatUint16_nonempty: "1 \<le> length (FormatUint16 n)"
  by (subst FormatUint16.simps) simp

lemma create_loop_too_long:
  "SHM_NAME_MAX pf < length (prefix @ FormatUint16 (unat (rand_Uint32 env (draws w))) @ suffix) \<Longrightarrow>
     create_loop env pf prefix suffix att w = Some (Inl ErrPatternTooLong, w\<lparr>draws := Suc (draws w)\<rparr>)"
  by (subst create_loop.simps) (simp add: next_random_def rand_draw_def Let_def)

theorem CreateTemp_long_maximum_succeeds:
  "SHM_NAME_MAX darwin < max_candidate_length darwin ''kitty-shared-memory-seg*''
   \<and> CreateTemp quiet_os darwin ''kitty-shared-memory-seg*'' 64 w0 =
       Some (Inr \<lparr>f = NewFile 3 ''kitty-shared-memory-seg2a'', region = Mapped 4096 64, unlinked = False\<rparr>,
             \<lparr>calls = [Syscall SYS_SHM_OPEN (''kitty-shared-memory-seg2a'' @ [CHR 0x00]) 2562 384,
                        Ftruncate 3 64, Mmap 3 0 64 3 1],
              draws = 1\<rparr>)"
  by code_simp

text \<open>
  C3, as amended. The length check is made on each candidate as generated: when the
  candidate built from the random number actually drawn is longer than
  \<^verbatim>\<open>SHM_NAME_MAX\<close>, \<^verbatim>\<open>CreateTemp\<close> fails with \<^verbatim>\<open>ErrPatternTooLong\<close> without issuing a
  call, in the first round of the loop and in any later one. This is so whatever the random
  numbers when even the shortest candidate, with one hex digit, is too long. As stated the
  claim fails: a pattern whose longest candidate does not fit succeeds when the number drawn
  renders short enough.
\<close>

theorem CreateTemp_too_long:
  assumes "prefix_and_suffix pattern = Inr (p, s)"
  shows "(SHM_NAME_MAX pf < length (effective_prefix pf pattern p @ FormatUint16 (unat (rand_Uint32 env (draws w))) @ s) \<longrightarrow>
            CreateTemp env pf pattern sz w = Some (Inl ErrPatternTooLong, w\<lparr>draws := Suc (draws w)\<rparr>))
       \<and> (SHM_NAME_MAX pf < length (effective_prefix pf pattern p) + 1 + length s \<longrightarrow>
            CreateTemp env pf pattern sz w = Some (Inl ErrPatternTooLong, w\<lparr>draws := Suc (draws w)\<rparr>))
       \<and> (SHM_NAME_MAX pf < length (prefix @ FormatUint16 (unat (rand_Uint32 env (draws w))) @ suffix) \<longrightarrow>
            create_loop env pf prefix suffix att w = Some (Inl ErrPatternTooLong, w\<lparr>draws := Suc (draws w)\<rparr>))"
proof (intro conjI impI)
  assume "SHM_NAME_MAX pf < length (effective_prefix pf pattern p @ FormatUint16 (unat (rand_Uint32 env (draws w))) @ s)"
  from create_loop_too_long [OF this, of 0] assms
  show "CreateTemp env pf pattern sz w = Some (Inl ErrPatternTooLong, w\<lparr>draws := Suc (draws w)\<rparr>)"
    by (simp add: CreateTemp_def create_temp_def)
next
  assume "SHM_NAME_MAX pf < length (effective_prefix pf pattern p) + 1 + length s"
  with FormatUint16_nonempty [of "unat (rand_Uint32 env (draws w))"]
  have "SHM_NAME_MAX pf < length (effective_prefix pf pattern p @ FormatUint16 (unat (rand_Uint32 env (draws w))) @ s)"
    by simp
  from create_loop_too_long [OF this, of 0] assms
  show "CreateTemp env pf pattern sz w = Some (Inl ErrPatternTooLong, w\<lparr>draws := Suc (draws w)\<rparr>)"
    by (simp add: CreateTemp_def create_temp_def)
next
  assume "SHM_NAME_MAX pf < length (prefix @ FormatUint16 (unat (rand_Uint32 env (draws w))) @ suffix)"
  then show "create_loop env pf prefix suffix att w = Some (Inl ErrPatternTooLong, w\<lparr>draws := Suc (draws w)\<rparr>)"
    by (rule create_loop_too_long)
qed

theorem CreateTemp_too_long_witness:
  "prefix_and_suffix ''kitty-shared-memory-segment-number-*'' = Inr (''kitty-shared-memory-segment-number-'', '''')
   \<and> SHM_NAME_MAX darwin < length (effective_prefix darwin ''kitty-shared-memory-segment-number-*'' ''kitty-shared-memory-segment-number-'') + 1 + length ''''
   \<and> SHM_NAME_MAX darwin < length (effective_prefix darwin ''kitty-shared-memory-segment-number-*'' ''kitty-shared-memory-segment-number-''
        @ FormatUint16 (unat (rand_Uint32 quiet_os (draws w0))) @ '''')
   \<and> CreateTemp quiet_os darwin ''kitty-shared-memory-segment-number-*'' 64 w0 =
        Some (Inl ErrPatternTooLong, \<lparr>calls = [], draws = 1\<rparr>)
   \<and> create_loop quiet_os darwin ''kitty-shared-memory-segment-number-'' '''' 7 w0 =
        Some (Inl ErrPatternTooLong, \<lparr>calls = [], draws = 1\<rparr>)"
proof -
  have a: "prefix_and_suffix ''kitty-shared-memory-segment-number-*'' = Inr (''kitty-shared-memory-segment-number-'', '''')"
    by code_simp
  have b: "SHM_NAME_MAX darwin < length (effective_prefix darwin ''kitty-shared-memory-segment-number-*'' ''kitty-shared-memory-segment-number-'') + 1 + length ''''"
    by code_simp
  have c: "SHM_NAME_MAX darwin < length (effective_prefix darwin ''kitty-shared-memory-segment-number-*'' ''kitty-shared-memory-segment-number-''
        @ FormatUint16 (unat (rand_Uint32 quiet_os (draws w0))) @ '''')"
    by code_simp
  have d: "SHM_NAME_MAX darwin < length (''kitty-shared-memory-segment-number-''
        @ FormatUint16 (unat (rand_Uint32 quiet_os (draws w0))) @ '''')"
    by code_simp
  have e: "w0\<lparr>draws := Suc (draws w0)\<rparr> = \<lparr>calls = [], draws = 1\<rparr>"
    by (simp add: w0_def)
  from CreateTemp_too_long [OF a, where pf = darwin and env = quiet_os and w = w0
      and prefix = "''kitty-shared-memory-segment-number-''" and suffix = "''''" and sz = 64 and att = 7] a b c d e
  show ?thesis by simp
qed

lemma exists_answer_iff: "exists_answer e \<longleftrightarrow> e = EEXIST \<or> e = ENOTEMPTY"
  by (auto simp: exists_answer_def open_error_def already_exists_def EEXIST_def ENOTEMPTY_def EINTR_def)

lemma after_attempts_0: "after_attempts env prefix suffix 0 w = w"
  by (simp add: after_attempts_def)

lemma create_loop_step:
  assumes fit: "length (candidate env prefix suffix w 0) \<le> SHM_NAME_MAX pf"
    and ne: "answer env w 0 \<noteq> EINTR"
  shows "create_loop env pf prefix suffix att w =
     (if answer env w 0 \<noteq> 0
      then if already_exists (open_error (answer env w 0))
           then if att + 1 > 10000
                then Some (Inl (PathError ''createtemp'' (prefix @ ''*'' @ suffix) ErrExist),
                           after_attempts env prefix suffix 1 w)
                else create_loop env pf prefix suffix (att + 1) (after_attempts env prefix suffix 1 w)
           else Some (Inl (open_error (answer env w 0)), after_attempts env prefix suffix 1 w)
      else Some (Inr (NewFile (fst (syscall_ret env (length (calls w)))) (candidate env prefix suffix w 0)),
                 after_attempts env prefix suffix 1 w))"
proof -
  let ?w = "w\<lparr>draws := Suc (draws w)\<rparr>"
  have so: "shm_open env (candidate env prefix suffix w 0) (O_EXCL OR O_CREATE OR O_RDWR) 384 ?w =
     Some (if answer env w 0 \<noteq> 0 then Inl (open_error (answer env w 0))
           else Inr (NewFile (fst (syscall_ret env (length (calls w)))) (candidate env prefix suffix w 0)),
           after_attempts env prefix suffix 1 w)"
    using ne shm_open_now [of env ?w "candidate env prefix suffix w 0" "O_EXCL OR O_CREATE OR O_RDWR" 384]
    by (simp add: answer_def open_error_def after_attempts_def attempt_def emit_def)
  have nr: "next_random env w = (FormatUint16 (unat (rand_Uint32 env (draws w))), ?w)"
    by (simp add: next_random_def rand_draw_def)
  show ?thesis
    apply (subst create_loop.simps)
    using fit so
    apply (simp add: nr Let_def candidate_def)
    done
qed

lemma create_loop_retries:
  "\<forall>i<k. exists_answer (answer env w i) \<Longrightarrow>
   \<forall>i<k. length (candidate env prefix suffix w i) \<le> SHM_NAME_MAX pf \<Longrightarrow>
   att + k \<le> 10000 \<Longrightarrow>
   create_loop env pf prefix suffix att w =
     create_loop env pf prefix suffix (att + k) (after_attempts env prefix suffix k w)"
proof (induction k arbitrary: att w)
  case 0
  then show ?case by (simp add: after_attempts_0)
next
  case (Suc k)
  define w1 where "w1 = after_attempts env prefix suffix 1 w"
  have cw: "calls w1 = calls w @ [attempt env prefix suffix w 0]" and dw: "draws w1 = Suc (draws w)"
    by (simp_all add: w1_def after_attempts_def)
  have e0: "exists_answer (answer env w 0)" using Suc.prems(1) by simp
  have f0: "length (candidate env prefix suffix w 0) \<le> SHM_NAME_MAX pf" using Suc.prems(2) by simp
  from e0 have ne: "answer env w 0 \<noteq> EINTR" "answer env w 0 \<noteq> 0" "already_exists (open_error (answer env w 0))"
    by (simp_all add: exists_answer_def)
  have step: "create_loop env pf prefix suffix att w = create_loop env pf prefix suffix (att + 1) w1"
    using create_loop_step [OF f0 ne(1), of att] ne Suc.prems(3) by (simp add: w1_def)
  have a1: "\<And>i. answer env w1 i = answer env w (Suc i)"
    by (simp add: answer_def cw)
  have c1: "\<And>i. candidate env prefix suffix w1 i = candidate env prefix suffix w (Suc i)"
    by (simp add: candidate_def dw)
  have t1: "attempt env prefix suffix w1 = (\<lambda>i. attempt env prefix suffix w (Suc i))"
    by (rule ext) (simp add: attempt_def c1)
  have w2: "after_attempts env prefix suffix k w1 = after_attempts env prefix suffix (Suc k) w"
    by (simp add: after_attempts_def cw dw t1 map_upt_Suc del: upt_Suc)
  have "create_loop env pf prefix suffix (att + 1) w1 =
        create_loop env pf prefix suffix (att + 1 + k) (after_attempts env prefix suffix k w1)"
    using Suc.prems by (intro Suc.IH) (simp_all add: a1 c1)
  with step w2 show ?case by simp
qed

lemma calls_after_attempts:
  "calls (after_attempts env prefix suffix k w) = calls w @ map (attempt env prefix suffix w) [0..<k]"
  by (simp add: after_attempts_def)

lemma draws_after_attempts: "draws (after_attempts env prefix suffix k w) = draws w + k"
  by (simp add: after_attempts_def)

lemma answer_after_attempts:
  "answer env (after_attempts env prefix suffix k w) i = answer env w (k + i)"
  by (simp add: answer_def calls_after_attempts add.assoc)

lemma candidate_after_attempts:
  "candidate env prefix suffix (after_attempts env prefix suffix k w) i = candidate env prefix suffix w (k + i)"
  by (simp add: candidate_def draws_after_attempts add.assoc)

lemma one_more_attempt:
  "after_attempts env prefix suffix (Suc 0) (after_attempts env prefix suffix k w) =
     after_attempts env prefix suffix (Suc k) w"
  by (simp add: after_attempts_def attempt_def candidate_def)

lemma create_loop_last:
  assumes ex: "\<forall>i<k. exists_answer (answer env w i)"
    and fit: "\<forall>i\<le>k. length (candidate env prefix suffix w i) \<le> SHM_NAME_MAX pf"
    and k: "k \<le> 10000"
    and ne: "answer env w k \<noteq> EINTR"
  shows "create_loop env pf prefix suffix 0 w =
     (if answer env w k \<noteq> 0
      then if already_exists (open_error (answer env w k))
           then if k + 1 > 10000
                then Some (Inl (PathError ''createtemp'' (prefix @ ''*'' @ suffix) ErrExist),
                           after_attempts env prefix suffix (Suc k) w)
                else create_loop env pf prefix suffix (k + 1) (after_attempts env prefix suffix (Suc k) w)
           else Some (Inl (open_error (answer env w k)), after_attempts env prefix suffix (Suc k) w)
      else Some (Inr (NewFile (fst (syscall_ret env (length (calls w) + k))) (candidate env prefix suffix w k)),
                 after_attempts env prefix suffix (Suc k) w))"
proof -
  let ?wk = "after_attempts env prefix suffix k w"
  have r: "create_loop env pf prefix suffix 0 w = create_loop env pf prefix suffix k ?wk"
    using create_loop_retries [of k env w prefix suffix pf 0] ex fit k by simp
  have f: "length (candidate env prefix suffix ?wk 0) \<le> SHM_NAME_MAX pf"
    using fit by (simp add: candidate_after_attempts)
  have n: "answer env ?wk 0 \<noteq> EINTR"
    using ne by (simp add: answer_after_attempts)
  show ?thesis
    unfolding r
    by (subst create_loop_step [OF f n])
      (simp add: answer_after_attempts candidate_after_attempts one_more_attempt calls_after_attempts)
qed

text \<open>
  C4. In the loop of \<^verbatim>\<open>create_temp\<close>, a creation that fails with an error the code takes
  for "already exists" (\<^verbatim>\<open>errors.Is(err, fs.ErrExist)\<close>, or an unwrapped \<^verbatim>\<open>EEXIST\<close>)
  is tried again with the counter raised by one and a candidate made from the next random
  number; at counter 10000 one more such failure ends the call with the path error
  \<^verbatim>\<open>createtemp\<close> on \<^verbatim>\<open>prefix*suffix\<close>. So 10001 failures of that kind in a row give the
  exhaustion error after exactly 10001 attempts, and when at most 10000 of them are followed
  by a creation error of another kind, the call fails with that error at once, after that
  attempt and with no further call.
\<close>

theorem CreateTemp_retries_on_exists:
  assumes "prefix_and_suffix pattern = Inr (p, s)" and "q = effective_prefix pf pattern p"
  shows
   "(att < 10000 \<and> length (candidate env q s w 0) \<le> SHM_NAME_MAX pf \<and> exists_answer (answer env w 0) \<longrightarrow>
        create_loop env pf q s att w = create_loop env pf q s (Suc att) (after_attempts env q s 1 w))
    \<and> (length (candidate env q s w 0) \<le> SHM_NAME_MAX pf \<and> exists_answer (answer env w 0) \<longrightarrow>
        create_loop env pf q s 10000 w =
          Some (Inl (PathError ''createtemp'' (q @ ''*'' @ s) ErrExist), after_attempts env q s 1 w))
    \<and> ((\<forall>i<10001. length (candidate env q s w i) \<le> SHM_NAME_MAX pf \<and> exists_answer (answer env w i)) \<longrightarrow>
        CreateTemp env pf pattern sz w =
          Some (Inl (PathError ''createtemp'' (q @ ''*'' @ s) ErrExist), after_attempts env q s 10001 w))
    \<and> (k \<le> 10000 \<and> (\<forall>i<k. exists_answer (answer env w i))
         \<and> (\<forall>i\<le>k. length (candidate env q s w i) \<le> SHM_NAME_MAX pf) \<and> other_answer (answer env w k) \<longrightarrow>
        CreateTemp env pf pattern sz w =
          Some (Inl (open_error (answer env w k)), after_attempts env q s (Suc k) w))"
proof (intro conjI impI)
  assume h: "att < 10000 \<and> length (candidate env q s w 0) \<le> SHM_NAME_MAX pf \<and> exists_answer (answer env w 0)"
  then have "answer env w 0 \<noteq> EINTR" by (simp add: exists_answer_def)
  from create_loop_step [OF _ this, of q s pf att] h
  show "create_loop env pf q s att w = create_loop env pf q s (Suc att) (after_attempts env q s 1 w)"
    by (simp add: exists_answer_def)
next
  assume h: "length (candidate env q s w 0) \<le> SHM_NAME_MAX pf \<and> exists_answer (answer env w 0)"
  then have "answer env w 0 \<noteq> EINTR" by (simp add: exists_answer_def)
  from create_loop_step [OF _ this, of q s pf 10000] h
  show "create_loop env pf q s 10000 w =
          Some (Inl (PathError ''createtemp'' (q @ ''*'' @ s) ErrExist), after_attempts env q s 1 w)"
    by (simp add: exists_answer_def)
next
  assume h: "\<forall>i<10001. length (candidate env q s w i) \<le> SHM_NAME_MAX pf \<and> exists_answer (answer env w i)"
  then have e: "exists_answer (answer env w 10000)" by simp
  from h have "create_loop env pf q s 0 w =
          Some (Inl (PathError ''createtemp'' (q @ ''*'' @ s) ErrExist), after_attempts env q s 10001 w)"
    using e by (subst create_loop_last [of 10000]) (simp_all add: exists_answer_def)
  with assms show "CreateTemp env pf pattern sz w =
          Some (Inl (PathError ''createtemp'' (q @ ''*'' @ s) ErrExist), after_attempts env q s 10001 w)"
    by (simp add: CreateTemp_def create_temp_def)
next
  assume h: "k \<le> 10000 \<and> (\<forall>i<k. exists_answer (answer env w i))
         \<and> (\<forall>i\<le>k. length (candidate env q s w i) \<le> SHM_NAME_MAX pf) \<and> other_answer (answer env w k)"
  then have "create_loop env pf q s 0 w =
          Some (Inl (open_error (answer env w k)), after_attempts env q s (Suc k) w)"
    by (subst create_loop_last [of k]) (simp_all add: other_answer_def)
  with assms show "CreateTemp env pf pattern sz w =
          Some (Inl (open_error (answer env w k)), after_attempts env q s (Suc k) w)"
    by (simp add: CreateTemp_def create_temp_def)
qed

lemma FormatUint16_42: "FormatUint16 42 = ''2a''"
  by code_simp

lemma kitty_pattern: "prefix_and_suffix ''kitty-*'' = Inr (''kitty-'', '''')"
  by code_simp

lemma kitty_prefix: "''/kitty-'' = effective_prefix freebsd ''kitty-*'' ''kitty-''"
  by code_simp

theorem CreateTemp_retries_on_exists_witness:
  "create_loop exists_os freebsd ''/kitty-'' '''' 5 w0 =
     create_loop exists_os freebsd ''/kitty-'' '''' 6
       \<lparr>calls = [Syscall SYS_SHM_OPEN (''/kitty-2a'' @ [CHR 0x00]) 2562 384], draws = 1\<rparr>
   \<and> create_loop exists_os freebsd ''/kitty-'' '''' 10000 w0 =
       Some (Inl (PathError ''createtemp'' ''/kitty-*'' ErrExist),
             \<lparr>calls = [Syscall SYS_SHM_OPEN (''/kitty-2a'' @ [CHR 0x00]) 2562 384], draws = 1\<rparr>)
   \<and> CreateTemp exists_os freebsd ''kitty-*'' 64 w0 =
       Some (Inl (PathError ''createtemp'' ''/kitty-*'' ErrExist),
             after_attempts exists_os ''/kitty-'' '''' 10001 w0)
   \<and> draws (after_attempts exists_os ''/kitty-'' '''' 10001 w0) = 10001
   \<and> length (calls (after_attempts exists_os ''/kitty-'' '''' 10001 w0)) = 10001
   \<and> CreateTemp eacces_os freebsd ''kitty-*'' 64 w0 =
       Some (Inl (Errorf ''shm_open() failed with error: %w'' [] (Errno 13)),
             \<lparr>calls = [Syscall SYS_SHM_OPEN (''/kitty-2a'' @ [CHR 0x00]) 2562 384,
                        Syscall SYS_SHM_OPEN (''/kitty-2a'' @ [CHR 0x00]) 2562 384,
                        Syscall SYS_SHM_OPEN (''/kitty-2a'' @ [CHR 0x00]) 2562 384], draws = 3\<rparr>)"
proof -
  have cand: "\<And>i. candidate exists_os ''/kitty-'' '''' w0 i = ''/kitty-2a''"
    "\<And>i. candidate eacces_os ''/kitty-'' '''' w0 i = ''/kitty-2a''"
    by (simp_all add: candidate_def exists_os_def eacces_os_def quiet_os_def FormatUint16_42)
  have ans: "\<And>i. answer exists_os w0 i = 17"
    "\<And>i. answer eacces_os w0 i = (if i < 2 then 17 else 13)"
    by (simp_all add: answer_def exists_os_def eacces_os_def quiet_os_def w0_def)
  have cls: "exists_answer 17" "other_answer 13"
    by (simp_all add: exists_answer_def other_answer_def open_error_def already_exists_def
          EEXIST_def ENOTEMPTY_def EINTR_def)
  have att: "\<And>i. attempt exists_os ''/kitty-'' '''' w0 i = Syscall SYS_SHM_OPEN (''/kitty-2a'' @ [CHR 0x00]) 2562 384"
    "\<And>i. attempt eacces_os ''/kitty-'' '''' w0 i = Syscall SYS_SHM_OPEN (''/kitty-2a'' @ [CHR 0x00]) 2562 384"
    by (simp_all add: attempt_def cand BytePtrFromString_def ByteSliceFromString_def
          O_EXCL_def O_CREATE_def O_RDWR_def)
  have small: "after_attempts exists_os ''/kitty-'' '''' 1 w0 =
       \<lparr>calls = [Syscall SYS_SHM_OPEN (''/kitty-2a'' @ [CHR 0x00]) 2562 384], draws = 1\<rparr>"
    "after_attempts eacces_os ''/kitty-'' '''' (Suc 2) w0 =
       \<lparr>calls = [Syscall SYS_SHM_OPEN (''/kitty-2a'' @ [CHR 0x00]) 2562 384,
                  Syscall SYS_SHM_OPEN (''/kitty-2a'' @ [CHR 0x00]) 2562 384,
                  Syscall SYS_SHM_OPEN (''/kitty-2a'' @ [CHR 0x00]) 2562 384], draws = 3\<rparr>"
  proof -
    have u: "[0..<1] = [0::nat]" "[0..<Suc 2] = [0::nat, 1, 2]"
      by code_simp+
    show "after_attempts exists_os ''/kitty-'' '''' 1 w0 =
       \<lparr>calls = [Syscall SYS_SHM_OPEN (''/kitty-2a'' @ [CHR 0x00]) 2562 384], draws = 1\<rparr>"
      unfolding after_attempts_def u by (simp add: att) (simp add: w0_def)
    show "after_attempts eacces_os ''/kitty-'' '''' (Suc 2) w0 =
       \<lparr>calls = [Syscall SYS_SHM_OPEN (''/kitty-2a'' @ [CHR 0x00]) 2562 384,
                  Syscall SYS_SHM_OPEN (''/kitty-2a'' @ [CHR 0x00]) 2562 384,
                  Syscall SYS_SHM_OPEN (''/kitty-2a'' @ [CHR 0x00]) 2562 384], draws = 3\<rparr>"
      unfolding after_attempts_def u by (simp add: att) (simp add: w0_def)
  qed
  have big: "draws (after_attempts exists_os ''/kitty-'' '''' 10001 w0) = 10001"
    "length (calls (after_attempts exists_os ''/kitty-'' '''' 10001 w0)) = 10001"
    by (simp_all add: draws_after_attempts calls_after_attempts w0_def)
  have fits: "length ''/kitty-2a'' \<le> SHM_NAME_MAX freebsd"
    by (simp add: freebsd_def)
  from CreateTemp_retries_on_exists [OF kitty_pattern kitty_prefix, where env = exists_os and w = w0
      and att = 5 and sz = 64 and k = 0]
    CreateTemp_retries_on_exists [OF kitty_pattern kitty_prefix, where env = eacces_os and w = w0
      and att = 5 and sz = 64 and k = 2]
    cand ans cls small big fits
  show ?thesis
    by (simp add: open_error_def)
qed

lemma create_temp_failed_stage:
  assumes "prefix_and_suffix pattern = Inr (p, s)"
    and "create_loop env pf (effective_prefix pf pattern p) s 0 w = Some (Inr fl, w1)"
    and "ftruncate_retry env (Fd fl) sz w1 = Some (e, w2)"
  shows "(e \<noteq> 0 \<longrightarrow>
            CreateTemp env pf pattern sz w =
              Some (Inl (Errorf ''truncate failed with error: %w'' []
                          (Errorf ''Failed to ftruncate() SHM file %s to size: %d with error: %w''
                             [S (FName fl), U sz] (Errno e))),
                    w2\<lparr>calls := calls w2 @ [FileClose fl, OsRemove (FName fl)]\<rparr>)
            \<and> names_object (FName fl)
                 (Errorf ''truncate failed with error: %w'' []
                    (Errorf ''Failed to ftruncate() SHM file %s to size: %d with error: %w''
                       [S (FName fl), U sz] (Errno e))))
       \<and> (e = 0 \<and> snd (mmap_ret env (length (calls w2))) \<noteq> 0 \<longrightarrow>
            CreateTemp env pf pattern sz w =
              Some (Inl (Errorf ''mmap failed with error: %w'' [] (Errno (snd (mmap_ret env (length (calls w2)))))),
                    w2\<lparr>calls := calls w2 @ [Mmap (Fd fl) 0 sz (PROT_READ OR PROT_WRITE) MAP_SHARED,
                                              FileClose fl, OsRemove (FName fl)]\<rparr>))"
proof (intro conjI impI)
  assume "e \<noteq> 0"
  with assms show "CreateTemp env pf pattern sz w =
              Some (Inl (Errorf ''truncate failed with error: %w'' []
                          (Errorf ''Failed to ftruncate() SHM file %s to size: %d with error: %w''
                             [S (FName fl), U sz] (Errno e))),
                    w2\<lparr>calls := calls w2 @ [FileClose fl, OsRemove (FName fl)]\<rparr>)"
    by (simp add: CreateTemp_def create_temp_def syscall_mmap_def truncate_or_unlink_def
          File_Close_def os_Remove_def emit_def)
  show "names_object (FName fl)
                 (Errorf ''truncate failed with error: %w'' []
                    (Errorf ''Failed to ftruncate() SHM file %s to size: %d with error: %w''
                       [S (FName fl), U sz] (Errno e)))"
    by simp
next
  assume h: "e = 0 \<and> snd (mmap_ret env (length (calls w2))) \<noteq> 0"
  obtain r w3 where m: "map_or_remove env fl sz RDWR w2 = (r, w3)"
    by (cases "map_or_remove env fl sz RDWR w2")
  from m h map_or_remove_result [of env fl sz RDWR w2]
  have r: "r = Inl (Errorf ''mmap failed with error: %w'' [] (Errno (snd (mmap_ret env (length (calls w2))))))"
    by simp
  from m h map_or_remove_calls [of env fl sz RDWR w2]
  have c: "calls w3 = calls w2 @ [Mmap (Fd fl) 0 sz (PROT_READ OR PROT_WRITE) MAP_SHARED, FileClose fl, OsRemove (FName fl)]"
    by (simp add: RDWR_def)
  from m map_or_remove_draws [of env fl sz RDWR w2]
  have d: "draws w3 = draws w2" by simp
  from c d have "w3 = w2\<lparr>calls := calls w2 @ [Mmap (Fd fl) 0 sz (PROT_READ OR PROT_WRITE) MAP_SHARED,
                                              FileClose fl, OsRemove (FName fl)]\<rparr>"
    by simp
  with assms h m r show "CreateTemp env pf pattern sz w =
              Some (Inl (Errorf ''mmap failed with error: %w'' [] (Errno (snd (mmap_ret env (length (calls w2)))))),
                    w2\<lparr>calls := calls w2 @ [Mmap (Fd fl) 0 sz (PROT_READ OR PROT_WRITE) MAP_SHARED,
                                              FileClose fl, OsRemove (FName fl)]\<rparr>)"
    by (simp add: CreateTemp_def create_temp_def syscall_mmap_def truncate_or_unlink_def)
qed

theorem CreateTemp_mmap_error_names_nothing:
  "CreateTemp mapfail_os freebsd ''kitty-*'' 64 w0 =
     Some (Inl (Errorf ''mmap failed with error: %w'' [] (Errno 12)),
           \<lparr>calls = [Syscall SYS_SHM_OPEN (''/kitty-2a'' @ [CHR 0x00]) 2562 384, Ftruncate 3 64,
                      Mmap 3 0 64 3 1, FileClose (NewFile 3 ''/kitty-2a''), OsRemove ''/kitty-2a''],
            draws = 1\<rparr>)
   \<and> \<not> names_object ''/kitty-2a'' (Errorf ''mmap failed with error: %w'' [] (Errno 12))
   \<and> Syscall SYS_SHM_UNLINK (''/kitty-2a'' @ [CHR 0x00]) 0 0 \<notin>
       set [Syscall SYS_SHM_OPEN (''/kitty-2a'' @ [CHR 0x00]) 2562 384, Ftruncate 3 64,
            Mmap 3 0 64 3 1, FileClose (NewFile 3 ''/kitty-2a''), OsRemove ''/kitty-2a'']"
  by code_simp

text \<open>
  C2, as amended. When exclusive creation has succeeded and truncation fails,
  \<^verbatim>\<open>CreateTemp\<close> closes the file right after the failed truncation and returns the
  truncation error, which names the object and the target size, wrapped once more. When
  truncation succeeds and the mapping fails, it closes the file right after the failed
  mapping and returns the mapping error wrapped in a message that names neither the object
  nor the size. No handle is returned in either case. As stated the claim fails on the
  second error, which does not name the object. The removal that follows the close goes
  through \<^verbatim>\<open>os.Remove\<close> where \<^verbatim>\<open>Unlink\<close> goes through \<^verbatim>\<open>shm_unlink\<close>; the statement
  says nothing about it.
\<close>

theorem CreateTemp_cleans_up:
  assumes "prefix_and_suffix pattern = Inr (p, s)"
    and "create_loop env pf (effective_prefix pf pattern p) s 0 w = Some (Inr fl, w1)"
    and "ftruncate_retry env (Fd fl) sz w1 = Some (e, w2)"
  shows "(e \<noteq> 0 \<longrightarrow>
            (\<exists>w'. CreateTemp env pf pattern sz w =
                     Some (Inl (Errorf ''truncate failed with error: %w'' []
                                 (Errorf ''Failed to ftruncate() SHM file %s to size: %d with error: %w''
                                    [S (FName fl), U sz] (Errno e))), w')
                 \<and> (\<exists>rest. calls w' = calls w2 @ FileClose fl # rest))
            \<and> names_object (FName fl)
                 (Errorf ''truncate failed with error: %w'' []
                    (Errorf ''Failed to ftruncate() SHM file %s to size: %d with error: %w''
                       [S (FName fl), U sz] (Errno e))))
       \<and> (e = 0 \<and> snd (mmap_ret env (length (calls w2))) \<noteq> 0 \<longrightarrow>
            (\<exists>w'. CreateTemp env pf pattern sz w =
                     Some (Inl (Errorf ''mmap failed with error: %w'' []
                                 (Errno (snd (mmap_ret env (length (calls w2)))))), w')
                 \<and> (\<exists>rest. calls w' =
                       calls w2 @ Mmap (Fd fl) 0 sz (PROT_READ OR PROT_WRITE) MAP_SHARED # FileClose fl # rest)))"
  using create_temp_failed_stage [OF assms] by auto

theorem CreateTemp_cleans_up_witness:
  "create_loop truncfail_os freebsd (effective_prefix freebsd ''kitty-*'' ''kitty-'') '''' 0 w0 =
      Some (Inr (NewFile 3 ''/kitty-2a''),
            \<lparr>calls = [Syscall SYS_SHM_OPEN (''/kitty-2a'' @ [CHR 0x00]) 2562 384], draws = 1\<rparr>)
   \<and> ftruncate_retry truncfail_os (Fd (NewFile 3 ''/kitty-2a'')) 64
        \<lparr>calls = [Syscall SYS_SHM_OPEN (''/kitty-2a'' @ [CHR 0x00]) 2562 384], draws = 1\<rparr> =
      Some (28, \<lparr>calls = [Syscall SYS_SHM_OPEN (''/kitty-2a'' @ [CHR 0x00]) 2562 384, Ftruncate 3 64], draws = 1\<rparr>)
   \<and> (\<exists>w'. CreateTemp truncfail_os freebsd ''kitty-*'' 64 w0 =
             Some (Inl (Errorf ''truncate failed with error: %w'' []
                          (Errorf ''Failed to ftruncate() SHM file %s to size: %d with error: %w''
                             [S ''/kitty-2a'', U 64] (Errno 28))), w')
          \<and> (\<exists>rest. calls w' =
                [Syscall SYS_SHM_OPEN (''/kitty-2a'' @ [CHR 0x00]) 2562 384, Ftruncate 3 64,
                 FileClose (NewFile 3 ''/kitty-2a'')] @ rest))
   \<and> create_loop mapfail_os freebsd (effective_prefix freebsd ''kitty-*'' ''kitty-'') '''' 0 w0 =
      Some (Inr (NewFile 3 ''/kitty-2a''),
            \<lparr>calls = [Syscall SYS_SHM_OPEN (''/kitty-2a'' @ [CHR 0x00]) 2562 384], draws = 1\<rparr>)
   \<and> ftruncate_retry mapfail_os (Fd (NewFile 3 ''/kitty-2a'')) 64
        \<lparr>calls = [Syscall SYS_SHM_OPEN (''/kitty-2a'' @ [CHR 0x00]) 2562 384], draws = 1\<rparr> =
      Some (0, \<lparr>calls = [Syscall SYS_SHM_OPEN (''/kitty-2a'' @ [CHR 0x00]) 2562 384, Ftruncate 3 64], draws = 1\<rparr>)
   \<and> (\<exists>w'. CreateTemp mapfail_os freebsd ''kitty-*'' 64 w0 =
             Some (Inl (Errorf ''mmap failed with error: %w'' [] (Errno 12)), w')
          \<and> (\<exists>rest. calls w' =
                [Syscall SYS_SHM_OPEN (''/kitty-2a'' @ [CHR 0x00]) 2562 384, Ftruncate 3 64,
                 Mmap 3 0 64 3 1, FileClose (NewFile 3 ''/kitty-2a'')] @ rest))"
proof -
  have l1: "create_loop truncfail_os freebsd (effective_prefix freebsd ''kitty-*'' ''kitty-'') '''' 0 w0 =
      Some (Inr (NewFile 3 ''/kitty-2a''),
            \<lparr>calls = [Syscall SYS_SHM_OPEN (''/kitty-2a'' @ [CHR 0x00]) 2562 384], draws = 1\<rparr>)"
    by code_simp
  have l2: "create_loop mapfail_os freebsd (effective_prefix freebsd ''kitty-*'' ''kitty-'') '''' 0 w0 =
      Some (Inr (NewFile 3 ''/kitty-2a''),
            \<lparr>calls = [Syscall SYS_SHM_OPEN (''/kitty-2a'' @ [CHR 0x00]) 2562 384], draws = 1\<rparr>)"
    by code_simp
  have t1: "ftruncate_retry truncfail_os (Fd (NewFile 3 ''/kitty-2a'')) 64
        \<lparr>calls = [Syscall SYS_SHM_OPEN (''/kitty-2a'' @ [CHR 0x00]) 2562 384], draws = 1\<rparr> =
      Some (28, \<lparr>calls = [Syscall SYS_SHM_OPEN (''/kitty-2a'' @ [CHR 0x00]) 2562 384, Ftruncate 3 64], draws = 1\<rparr>)"
    by code_simp
  have t2: "ftruncate_retry mapfail_os (Fd (NewFile 3 ''/kitty-2a'')) 64
        \<lparr>calls = [Syscall SYS_SHM_OPEN (''/kitty-2a'' @ [CHR 0x00]) 2562 384], draws = 1\<rparr> =
      Some (0, \<lparr>calls = [Syscall SYS_SHM_OPEN (''/kitty-2a'' @ [CHR 0x00]) 2562 384, Ftruncate 3 64], draws = 1\<rparr>)"
    by code_simp
  from CreateTemp_cleans_up [OF kitty_pattern l1 t1]
  have x: "\<exists>w'. CreateTemp truncfail_os freebsd ''kitty-*'' 64 w0 =
             Some (Inl (Errorf ''truncate failed with error: %w'' []
                          (Errorf ''Failed to ftruncate() SHM file %s to size: %d with error: %w''
                             [S ''/kitty-2a'', U 64] (Errno 28))), w')
          \<and> (\<exists>rest. calls w' =
                [Syscall SYS_SHM_OPEN (''/kitty-2a'' @ [CHR 0x00]) 2562 384, Ftruncate 3 64,
                 FileClose (NewFile 3 ''/kitty-2a'')] @ rest)"
    by simp
  from CreateTemp_cleans_up [OF kitty_pattern l2 t2]
  have y: "\<exists>w'. CreateTemp mapfail_os freebsd ''kitty-*'' 64 w0 =
             Some (Inl (Errorf ''mmap failed with error: %w'' [] (Errno 12)), w')
          \<and> (\<exists>rest. calls w' =
                [Syscall SYS_SHM_OPEN (''/kitty-2a'' @ [CHR 0x00]) 2562 384, Ftruncate 3 64,
                 Mmap 3 0 64 3 1, FileClose (NewFile 3 ''/kitty-2a'')] @ rest)"
    by (simp add: mapfail_os_def quiet_os_def PROT_READ_def PROT_WRITE_def MAP_SHARED_def)
  from l1 t1 x l2 t2 y show ?thesis by blast
qed

end
